theory Spec2Isabelle
  imports Complex_Main "HOL-Library.Sublist" "HOL-Library.Word"
begin

section \<open>Python strings\<close>

text \<open>
  A Python \<open>str\<close> is modelled as a \<open>string\<close> whose characters are the code points
  U+0000 .. U+00FF (Latin-1), which covers the accented letters of the keyword table.
  On this range \<open>str.lower\<close> maps A-Z and U+00C0 .. U+00DE (except the multiplication
  sign U+00D7) to the code point 32 above, and leaves every other character alone; the
  whitespace of \<open>str.strip\<close> and \<open>str.split\<close> is TAB .. CR, FS .. US, SPACE, NEL and NBSP.
  Python floats are modelled as exact rationals.
\<close>

definition isspace :: "char \<Rightarrow> bool" where
  "isspace c = (let n = (of_char c :: nat) in
     (9 \<le> n \<and> n \<le> 13) \<or> (28 \<le> n \<and> n \<le> 32) \<or> n = 133 \<or> n = 160)"

definition lower_char :: "char \<Rightarrow> char" where
  "lower_char c = (let n = (of_char c :: nat) in
     if (65 \<le> n \<and> n \<le> 90) \<or> (192 \<le> n \<and> n \<le> 222 \<and> n \<noteq> 215)
     then char_of (n + 32) else c)"

definition py_lower :: "string \<Rightarrow> string" where
  "py_lower s = map lower_char s"

definition py_strip :: "string \<Rightarrow> string" where
  "py_strip s = rev (dropWhile isspace (rev (dropWhile isspace s)))"

text \<open>\<open>str.split()\<close> without a separator: the maximal runs of non-whitespace, in order.
  \<open>split_acc cur rest\<close> scans \<open>rest\<close> with the word in progress in \<open>cur\<close>.\<close>

fun split_acc :: "string \<Rightarrow> string \<Rightarrow> string list" where
  "split_acc cur [] = (if cur = [] then [] else [cur])"
| "split_acc cur (c # cs) =
     (if isspace c then (if cur = [] then split_acc [] cs else cur # split_acc [] cs)
      else split_acc (cur @ [c]) cs)"

definition py_split :: "string \<Rightarrow> string list" where
  "py_split s = split_acc [] s"

text \<open>Python's \<open>k in t\<close> on strings is the substring test, \<^const>\<open>sublist\<close> on lists.\<close>

section \<open>config.py\<close>

definition AMD_DECISION_TIMEOUT_SECONDS :: rat where
  "AMD_DECISION_TIMEOUT_SECONDS = 3.5"

definition AMD_MIN_SPEECH_FOR_MACHINE :: rat where
  "AMD_MIN_SPEECH_FOR_MACHINE = 2.5"

definition VOICEMAIL_KEYWORDS :: "string list" where
  "VOICEMAIL_KEYWORDS =
    [''mensaje'', ''buz'' @ [CHR 0xF3] @ ''n'', ''buzon'', ''tono'', ''ocupado'', ''disponible'',
     ''despu'' @ [CHR 0xE9] @ ''s del'', ''despues del'', ''deje su'', ''deja tu'',
     ''no se encuentra'',
     ''fuera de servicio'', ''no est'' @ [CHR 0xE1] @ '' disponible'', ''no esta disponible'',
     ''vuelva a llamar'', ''intentelo m'' @ [CHR 0xE1] @ ''s tarde'', ''intentelo mas tarde'',
     ''n'' @ [CHR 0xFA] @ ''mero que usted marc'' @ [CHR 0xF3], ''numero que usted marco'',
     ''en este momento'', ''por favor'', ''gracias por llamar'',
     ''horario de atenci'' @ [CHR 0xF3] @ ''n'', ''horario de atencion'',
     ''marque la extensi'' @ [CHR 0xF3] @ ''n'', ''marque la extension'',
     ''bienvenido'', ''ha comunicado con'', ''ha llamado a'',
     ''voicemail'', ''leave a message'', ''after the tone'', ''beep'',
     ''not available'', ''please call back'']"

section \<open>amd\_detector.py: the classifier\<close>

datatype outcome = HUMAN | MACHINE | UNKNOWN

text \<open>The \<open>reason\<close> strings are diagnostic f-strings; the model keeps which message it is
  and the values formatted into it.\<close>

datatype reason_msg =
    NoSpeech
  | KeywordsDetected "string list"
  | LongSpeech rat nat
  | HumanGreeting string
  | ShortNoIndicators
  | Undetermined

text \<open>The result dictionary. A key that a dictionary does not have is \<open>None\<close>.\<close>

record amd_result =
  r_call_id :: "string option"
  result :: outcome
  confidence :: rat
  reason :: reason_msg
  transcription :: string
  r_keywords :: "string list option"
  partial :: "bool option"
  forced :: "bool option"

definition human_greetings :: "string list" where
  "human_greetings =
    [''alo'', ''al'' @ [CHR 0xF3], ''hola'', ''si'', ''s'' @ [CHR 0xED], ''diga'', ''digame'',
     ''d'' @ [CHR 0xED] @ ''game'', ''bueno'', ''quien'', ''qui'' @ [CHR 0xE9] @ ''n'', ''mande'']"

definition keywords_found :: "string \<Rightarrow> string list" where
  "keywords_found text_lower = filter (\<lambda>keyword. sublist keyword text_lower) VOICEMAIL_KEYWORDS"

definition analysis :: "outcome \<Rightarrow> rat \<Rightarrow> reason_msg \<Rightarrow> string \<Rightarrow> string list option \<Rightarrow> amd_result" where
  "analysis res conf why txt kws =
     \<lparr>r_call_id = None, result = res, confidence = conf, reason = why, transcription = txt,
      r_keywords = kws, partial = None, forced = None\<rparr>"

definition analyze_transcription :: "string \<Rightarrow> rat \<Rightarrow> amd_result" where
  "analyze_transcription text speech_duration =
    (let text_lower = py_strip (py_lower text) in
     if text_lower = [] then analysis UNKNOWN 0.0 NoSpeech [] None
     else
       let kf = keywords_found text_lower in
       if length kf \<ge> 1 then
         analysis MACHINE (min 0.95 (0.7 + of_nat (length kf) * 0.1)) (KeywordsDetected kf)
           text_lower (Some kf)
       else if speech_duration > AMD_MIN_SPEECH_FOR_MACHINE \<and> length (py_split text_lower) > 8 then
         analysis MACHINE 0.75 (LongSpeech speech_duration (length (py_split text_lower)))
           text_lower None
       else
         let words = py_split text_lower in
         if length words \<le> 3 \<and> list_ex (\<lambda>greeting. sublist greeting text_lower) human_greetings then
           analysis HUMAN 0.85 (HumanGreeting text_lower) text_lower None
         else if length words \<le> 4 \<and> length kf = 0 then
           analysis HUMAN 0.70 ShortNoIndicators text_lower None
         else
           analysis UNKNOWN 0.5 Undetermined text_lower None)"

section \<open>The Vosk recogniser\<close>

text \<open>
  \<open>KaldiRecognizer\<close> is an external, stateful object. Its behaviour is a parameter of the
  model: \<open>'r\<close> is the recogniser's internal state, every method takes that state and
  returns the next one. \<open>Result\<close>, \<open>PartialResult\<close> and \<open>FinalResult\<close> stand for the method
  call together with \<open>json.loads\<close> and the \<open>.get\<close> of the key the caller reads
  (\<open>"text"\<close>, \<open>"partial"\<close>, \<open>"text"\<close>), the empty string when the key is absent.
\<close>

type_synonym bytes = "8 word list"

record 'r vosk =
  KaldiRecognizer :: "int \<Rightarrow> 'r"
  AcceptWaveform :: "'r \<Rightarrow> bytes \<Rightarrow> bool \<times> 'r"
  Result :: "'r \<Rightarrow> string \<times> 'r"
  PartialResult :: "'r \<Rightarrow> string \<times> 'r"
  FinalResult :: "'r \<Rightarrow> string \<times> 'r"

section \<open>amd\_detector.py: the session\<close>

record 'r AMDSession =
  call_id :: string
  sample_rate :: int
  recognizer :: 'r
  accumulated_text :: string
  speech_start_time :: "rat option"
  total_speech_duration :: rat
  decision_made :: bool
  final_result :: "amd_result option"

text \<open>\<open>AMDSession.__init__\<close>\<close>

definition AMDSession_init :: "'r vosk \<Rightarrow> string \<Rightarrow> int \<Rightarrow> 'r AMDSession" where
  "AMDSession_init v cid rate =
     \<lparr>call_id = cid, sample_rate = rate, recognizer = KaldiRecognizer v rate,
      accumulated_text = [], speech_start_time = None, total_speech_duration = 0.0,
      decision_made = False, final_result = None\<rparr>"

datatype py_error = ZeroDivisionError

text \<open>How a call ends: it returns a value or raises. The session a method has mutated
  before raising stays mutated, so the session after the call is returned beside it.\<close>

datatype 'a returned = Return 'a | Raise py_error

definition process_audio ::
  "'r vosk \<Rightarrow> 'r AMDSession \<Rightarrow> bytes \<Rightarrow> amd_result option returned \<times> 'r AMDSession" where
  "process_audio v self audio_data =
    (if decision_made self then (Return (final_result self), self)
     else
       let (accepted, rec1) = AcceptWaveform v (recognizer self) audio_data in
       if accepted then
         let (text, rec2) = Result v rec1;
             self1 = self\<lparr>recognizer := rec2\<rparr> in
         if text \<noteq> [] then
           let self2 = self1\<lparr>accumulated_text := accumulated_text self1 @ '' '' @ text\<rparr> in
           if sample_rate self2 * 2 = 0 then (Raise ZeroDivisionError, self2)
           else
             let self3 = self2\<lparr>total_speech_duration := total_speech_duration self2
                            + of_nat (length audio_data) / of_int (sample_rate self2 * 2)\<rparr>;
                 an = analyze_transcription (py_strip (accumulated_text self3))
                        (total_speech_duration self3) in
             if confidence an \<ge> 0.70 then
               let res = an\<lparr>r_call_id := Some (call_id self3)\<rparr> in
               (Return (Some res), self3\<lparr>decision_made := True, final_result := Some res\<rparr>)
             else (Return None, self3)
         else (Return None, self1)
       else
         let (partial_text, rec2) = PartialResult v rec1;
             self1 = self\<lparr>recognizer := rec2\<rparr> in
         if partial_text \<noteq> [] then
           let quick_analysis = analyze_transcription partial_text 0 in
           if result quick_analysis = MACHINE \<and> confidence quick_analysis \<ge> 0.85 then
             let res = quick_analysis\<lparr>r_call_id := Some (call_id self1), partial := Some True\<rparr> in
             (Return (Some res), self1\<lparr>decision_made := True, final_result := Some res\<rparr>)
           else (Return None, self1)
         else (Return None, self1))"

definition force_decision :: "'r vosk \<Rightarrow> 'r AMDSession \<Rightarrow> amd_result option \<times> 'r AMDSession" where
  "force_decision v self =
    (if decision_made self then (final_result self, self)
     else
       let (final_text, rec1) = FinalResult v (recognizer self);
           self1 = self\<lparr>recognizer := rec1\<rparr>;
           self2 = (if final_text \<noteq> []
                    then self1\<lparr>accumulated_text := accumulated_text self1 @ '' '' @ final_text\<rparr>
                    else self1);
           an = analyze_transcription (py_strip (accumulated_text self2))
                  (total_speech_duration self2);
           res = an\<lparr>r_call_id := Some (call_id self2), forced := Some True\<rparr>
       in (Some res, self2\<lparr>decision_made := True, final_result := Some res\<rparr>))"

text \<open>Any sequence of the two operations on one session.\<close>

datatype session_call = ProcessAudio bytes | ForceDecision

fun run_call :: "'r vosk \<Rightarrow> 'r AMDSession \<Rightarrow> session_call \<Rightarrow> 'r AMDSession" where
  "run_call v s (ProcessAudio a) = snd (process_audio v s a)"
| "run_call v s ForceDecision = snd (force_decision v s)"

fun run_calls :: "'r vosk \<Rightarrow> 'r AMDSession \<Rightarrow> session_call list \<Rightarrow> 'r AMDSession" where
  "run_calls v s [] = s"
| "run_calls v s (c # cs) = run_calls v (run_call v s c) cs"

section \<open>main.py: the registry and the streaming controller\<close>

text \<open>
  \<open>active_sessions\<close> maps a call id to a session object. Objects are mutated in place
  through any reference to them, so the model keeps them in a store indexed by object
  identity; the dictionary holds identities.
\<close>

record 'r server =
  objects :: "nat \<rightharpoonup> 'r AMDSession"
  active_sessions :: "string \<rightharpoonup> nat"
  next_id :: nat

text \<open>Session creation, as both endpoints do it:
  \<^verbatim>\<open>session = AMDSession(amd_detector, call_id, sample_rate); active_sessions[call_id] = session\<close>\<close>

definition create_session ::
  "'r vosk \<Rightarrow> 'r server \<Rightarrow> string \<Rightarrow> int \<Rightarrow> nat \<times> 'r AMDSession \<times> 'r server" where
  "create_session v srv cid rate =
     (let ref = next_id srv; session = AMDSession_init v cid rate in
      (ref, session,
       srv\<lparr>objects := (objects srv)(ref \<mapsto> session),
           active_sessions := (active_sessions srv)(cid \<mapsto> ref),
           next_id := Suc ref\<rparr>))"

text \<open>The \<open>finally\<close> clause: \<^verbatim>\<open>if call_id in active_sessions: del active_sessions[call_id]\<close>\<close>

definition remove_session :: "'r server \<Rightarrow> string \<Rightarrow> 'r server" where
  "remove_session srv cid =
     (if active_sessions srv cid \<noteq> None
      then srv\<lparr>active_sessions := (active_sessions srv)(cid := None)\<rparr> else srv)"

text \<open>
  One iteration of \<^verbatim>\<open>while True\<close> reads the clock and then waits for a frame for at
  most half a second. The environment is a list of ticks, one per iteration: the elapsed
  time read at the top of the iteration, and what \<open>receive_bytes\<close> under \<open>wait_for\<close>
  does in it. When the ticks run out the loop is still running: \<open>None\<close>.
\<close>

datatype recv = Frame bytes | TimeoutError | WebSocketDisconnect

type_synonym tick = "rat \<times> recv"

datatype ws_msg = Json "amd_result option" | ErrorJson py_error | ReadyJson string

datatype loop_end = Break | Disconnected | Failed py_error

fun decision_loop ::
  "'r vosk \<Rightarrow> 'r AMDSession \<Rightarrow> tick list \<Rightarrow> (loop_end \<times> ws_msg list \<times> 'r AMDSession) option" where
  "decision_loop v session [] = None"
| "decision_loop v session ((elapsed, rcv) # ticks) =
    (if elapsed > AMD_DECISION_TIMEOUT_SECONDS then
       (let (res, s') = force_decision v session in Some (Break, [Json res], s'))
     else
       case rcv of
         TimeoutError \<Rightarrow> decision_loop v session ticks
       | WebSocketDisconnect \<Rightarrow> Some (Disconnected, [], session)
       | Frame audio_data \<Rightarrow>
           (case process_audio v session audio_data of
              (Raise e, s') \<Rightarrow> Some (Failed e, [], s')
            | (Return None, s') \<Rightarrow> decision_loop v s' ticks
            | (Return (Some res), s') \<Rightarrow> Some (Break, [Json (Some res)], s')))"

text \<open>The session method that one iteration of the loop calls: \<open>force_decision\<close> when
  the clock has passed the timeout, \<open>process_audio\<close> when a frame arrived, none when the
  wait timed out or the client disconnected.\<close>

fun tick_call :: "tick \<Rightarrow> session_call list" where
  "tick_call (elapsed, rcv) =
     (if elapsed > AMD_DECISION_TIMEOUT_SECONDS then [ForceDecision]
      else case rcv of Frame audio_data \<Rightarrow> [ProcessAudio audio_data] | _ \<Rightarrow> [])"

text \<open>\<open>websocket_amd\<close> with the detector loaded: everything the handler sends, and the
  server state it leaves.\<close>

definition websocket_amd ::
  "'r vosk \<Rightarrow> 'r server \<Rightarrow> string \<Rightarrow> tick list \<Rightarrow> (ws_msg list \<times> 'r server) option" where
  "websocket_amd v srv cid ticks =
    (let (ref, session, srv1) = create_session v srv cid 8000 in
     case decision_loop v session ticks of
       None \<Rightarrow> None
     | Some (ending, sent, s') \<Rightarrow>
         Some ((case ending of Failed e \<Rightarrow> sent @ [ErrorJson e] | _ \<Rightarrow> sent),
               remove_session (srv1\<lparr>objects := (objects srv1)(ref \<mapsto> s')\<rparr>) cid))"

text \<open>\<open>websocket_stream\<close>: the first message carries the configuration, a missing key
  takes its default; this handler only logs an exception.\<close>

definition websocket_stream ::
  "'r vosk \<Rightarrow> 'r server \<Rightarrow> string option \<Rightarrow> int option \<Rightarrow> tick list
     \<Rightarrow> (ws_msg list \<times> 'r server) option" where
  "websocket_stream v srv cfg_call_id cfg_sample_rate ticks =
    (let cid = (case cfg_call_id of None \<Rightarrow> ''unknown'' | Some c \<Rightarrow> c);
         rate = (case cfg_sample_rate of None \<Rightarrow> 8000 | Some r \<Rightarrow> r);
         (ref, session, srv1) = create_session v srv cid rate in
     case decision_loop v session ticks of
       None \<Rightarrow> None
     | Some (ending, sent, s') \<Rightarrow>
         let srv2 = srv1\<lparr>objects := (objects srv1)(ref \<mapsto> s')\<rparr> in
         Some (ReadyJson cid # sent, if cid \<noteq> [] then remove_session srv2 cid else srv2))"

text \<open>\<open>analyze_audio\<close> on a decoded buffer: an exception becomes the HTTP 500 answer.\<close>

definition analyze_audio ::
  "'r vosk \<Rightarrow> string \<Rightarrow> bytes \<Rightarrow> int \<Rightarrow> py_error + amd_result option" where
  "analyze_audio v cid audio_data rate =
    (let session = AMDSession_init v cid rate in
     case process_audio v session audio_data of
       (Raise e, s') \<Rightarrow> Inl e
     | (Return (Some res), s') \<Rightarrow> Inr (Some res)
     | (Return None, s') \<Rightarrow> Inr (fst (force_decision v s')))"

section \<open>A recogniser that replays a script\<close>

text \<open>An instance of the recogniser interface on which the theorems below are run: each
  frame consumes the next utterance of a script, finalized or in progress; once the
  script is used up every frame is silence.\<close>

datatype utterance = Final string | Partial string

definition scripted :: "utterance list \<Rightarrow> (utterance list \<times> string) vosk" where
  "scripted script =
     \<lparr>KaldiRecognizer = (\<lambda>rate. (script, [])),
      AcceptWaveform = (\<lambda>(us, cur) audio_data.
         case us of [] \<Rightarrow> (False, ([], []))
         | Final t # rest \<Rightarrow> (True, (rest, t))
         | Partial t # rest \<Rightarrow> (False, (rest, t))),
      Result = (\<lambda>(us, cur). (cur, (us, []))),
      PartialResult = (\<lambda>(us, cur). (cur, (us, cur))),
      FinalResult = (\<lambda>(us, cur). (cur, (us, [])))\<rparr>"

definition frame :: "nat \<Rightarrow> bytes" where
  "frame n = replicate n 0"

text \<open>A recogniser that never finalizes anything: every frame leaves the same
  in-progress text.\<close>

definition partial_only :: "string \<Rightarrow> unit vosk" where
  "partial_only p =
     \<lparr>KaldiRecognizer = (\<lambda>rate. ()),
      AcceptWaveform = (\<lambda>rc audio_data. (False, rc)),
      Result = (\<lambda>rc. ([], rc)),
      PartialResult = (\<lambda>rc. (p, rc)),
      FinalResult = (\<lambda>rc. ([], rc))\<rparr>"

definition no_sessions :: "'r server" where
  "no_sessions = \<lparr>objects = Map.empty, active_sessions = Map.empty, next_id = 0\<rparr>"

section \<open>Facts about the tables and the string functions\<close>

lemma keywords_distinct: "distinct VOICEMAIL_KEYWORDS"
  by code_simp

lemma keywords_shape:
  "list_all (\<lambda>k. py_lower k = k \<and> k \<noteq> [] \<and> \<not> isspace (hd k) \<and> \<not> isspace (last k)) VOICEMAIL_KEYWORDS"
  by code_simp

lemma greetings_nonempty: "list_all (\<lambda>g. g \<noteq> []) human_greetings"
  by code_simp

lemma sublist_dropWhile_keep:
  assumes "sublist k t" and "k \<noteq> []" and "\<not> P (hd k)"
  shows "sublist k (dropWhile P t)"
proof -
  from assms(1) obtain ps ss where t: "t = ps @ k @ ss"
    by (auto simp: sublist_def)
  from assms(2,3) have dk: "dropWhile P (k @ ss) = k @ ss"
    by (cases k) auto
  show ?thesis
  proof (cases "\<forall>x\<in>set ps. P x")
    case True
    then have "dropWhile P t = k @ ss"
      using dk by (simp add: t dropWhile_append)
    then show ?thesis by simp
  next
    case False
    then obtain x where "x \<in> set ps" "\<not> P x"
      by blast
    then have "dropWhile P t = dropWhile P ps @ k @ ss"
      unfolding t by (rule dropWhile_append1)
    then show ?thesis by simp
  qed
qed

lemma sublist_py_strip:
  assumes "sublist k t" and "k \<noteq> []" and "\<not> isspace (hd k)" and "\<not> isspace (last k)"
  shows "sublist k (py_strip t)"
proof -
  have "sublist k (dropWhile isspace t)"
    using assms by (intro sublist_dropWhile_keep)
  then have "sublist (rev k) (rev (dropWhile isspace t))"
    by simp
  moreover have "rev k \<noteq> []" "\<not> isspace (hd (rev k))"
    using assms by (simp_all add: hd_rev)
  ultimately have "sublist (rev k) (dropWhile isspace (rev (dropWhile isspace t)))"
    by (intro sublist_dropWhile_keep)
  then have "sublist (rev (rev k)) (rev (dropWhile isspace (rev (dropWhile isspace t))))"
    by (simp only: sublist_rev)
  then show ?thesis by (simp add: py_strip_def)
qed

lemma keyword_in_normalized:
  assumes "k \<in> set VOICEMAIL_KEYWORDS" and "sublist k text"
  shows "sublist k (py_strip (py_lower text))"
proof -
  from keywords_shape assms(1)
  have sh: "py_lower k = k" "k \<noteq> []" "\<not> isspace (hd k)" "\<not> isspace (last k)"
    by (auto simp: list_all_iff)
  from assms(2) have "sublist (py_lower k) (py_lower text)"
    unfolding py_lower_def by (rule map_mono_sublist)
  with sh(1) have "sublist k (py_lower text)" by simp
  with sh show ?thesis by (intro sublist_py_strip)
qed

lemma length_keywords_found:
  "length (keywords_found t) = card {kw \<in> set VOICEMAIL_KEYWORDS. sublist kw t}"
proof -
  have "distinct (keywords_found t)"
    unfolding keywords_found_def using keywords_distinct by (rule distinct_filter)
  then have "card (set (keywords_found t)) = length (keywords_found t)"
    by (rule distinct_card)
  moreover have "set (keywords_found t) = {kw \<in> set VOICEMAIL_KEYWORDS. sublist kw t}"
    by (simp add: keywords_found_def)
  ultimately show ?thesis by simp
qed

lemma analyze_keyword_branch:
  assumes "keywords_found (py_strip (py_lower text)) \<noteq> []"
  shows "analyze_transcription text d =
     analysis MACHINE (min 0.95 (0.7 + of_nat (length (keywords_found (py_strip (py_lower text)))) * 0.1))
       (KeywordsDetected (keywords_found (py_strip (py_lower text))))
       (py_strip (py_lower text)) (Some (keywords_found (py_strip (py_lower text))))"
proof -
  have ne: "py_strip (py_lower text) \<noteq> []"
  proof
    assume e: "py_strip (py_lower text) = []"
    have "keywords_found [] = []"
      using keywords_shape by (auto simp: keywords_found_def list_all_iff filter_empty_conv)
    with assms e show False by simp
  qed
  from assms have "length (keywords_found (py_strip (py_lower text))) \<ge> 1"
    by (cases "keywords_found (py_strip (py_lower text))") auto
  with ne show ?thesis
    by (simp add: analyze_transcription_def Let_def)
qed

section \<open>The keyword rule\<close>

text \<open>
  C3. If some phrase of \<open>VOICEMAIL_KEYWORDS\<close> occurs as a substring of the text (as given,
  or after lower-casing and trimming, which is where the code looks), the classifier
  answers MACHINE, whatever the speech duration and the length of the text; the
  confidence is \<open>min 0.95 (0.70 + 0.10 * n)\<close> for \<open>n\<close> the number of distinct phrases
  that occur in the normalized text, and the \<open>keywords\<close> entry lists exactly those
  phrases, each once.
\<close>

theorem keyword_rule:
  assumes "k \<in> set VOICEMAIL_KEYWORDS"
    and "sublist k text \<or> sublist k (py_strip (py_lower text))"
  shows "result (analyze_transcription text d) = MACHINE
    \<and> confidence (analyze_transcription text d) =
        min 0.95 (0.70 + 0.10 * of_nat (card {kw \<in> set VOICEMAIL_KEYWORDS.
                                             sublist kw (py_strip (py_lower text))}))
    \<and> (\<exists>ks. r_keywords (analyze_transcription text d) = Some ks \<and> distinct ks
          \<and> set ks = {kw \<in> set VOICEMAIL_KEYWORDS. sublist kw (py_strip (py_lower text))})"
proof -
  from assms have "sublist k (py_strip (py_lower text))"
    using keyword_in_normalized by blast
  with assms(1) have "k \<in> set (keywords_found (py_strip (py_lower text)))"
    by (simp add: keywords_found_def)
  then have ne: "keywords_found (py_strip (py_lower text)) \<noteq> []"
    by auto
  have d: "distinct (keywords_found (py_strip (py_lower text)))"
    unfolding keywords_found_def using keywords_distinct by (rule distinct_filter)
  have s: "set (keywords_found (py_strip (py_lower text))) =
      {kw \<in> set VOICEMAIL_KEYWORDS. sublist kw (py_strip (py_lower text))}"
    by (simp add: keywords_found_def)
  show ?thesis
    unfolding analyze_keyword_branch [OF ne]
    using d s by (simp add: analysis_def length_keywords_found mult.commute)
qed

theorem keyword_rule_witness:
  "''buzon'' \<in> set VOICEMAIL_KEYWORDS \<and> sublist ''buzon'' ''buzon''
   \<and> result (analyze_transcription ''buzon'' 0) = MACHINE
   \<and> result (analyze_transcription ''buzon'' 0) \<noteq> HUMAN
   \<and> confidence (analyze_transcription ''buzon'' 0) = 0.80
   \<and> r_keywords (analyze_transcription ''buzon'' 0) = Some [''buzon'']"
proof -
  have h1: "''buzon'' \<in> set VOICEMAIL_KEYWORDS"
    by (simp add: VOICEMAIL_KEYWORDS_def)
  have h2: "sublist ''buzon'' ''buzon''"
    by simp
  have c: "confidence (analyze_transcription ''buzon'' 0) = 0.80"
    "r_keywords (analyze_transcription ''buzon'' 0) = Some [''buzon'']"
    by code_simp+
  from keyword_rule [OF h1, of "''buzon''" 0] h2
  have "result (analyze_transcription ''buzon'' 0) = MACHINE"
    by blast
  with h1 h2 c show ?thesis by simp
qed

section \<open>Facts about the classifier and the session operations\<close>

lemma analyze_empty: "py_strip (py_lower text) = [] \<Longrightarrow>
    analyze_transcription text d = analysis UNKNOWN 0 NoSpeech [] None"
  by (simp add: analyze_transcription_def)

lemma analyze_outcomes:
  "(result (analyze_transcription text d) = UNKNOWN \<and> confidence (analyze_transcription text d) = 0)
   \<or> (result (analyze_transcription text d) = MACHINE
        \<and> 0.8 \<le> confidence (analyze_transcription text d)
        \<and> confidence (analyze_transcription text d) \<le> 0.95
        \<and> keywords_found (py_strip (py_lower text)) \<noteq> [])
   \<or> (result (analyze_transcription text d) = MACHINE
        \<and> confidence (analyze_transcription text d) = 0.75
        \<and> AMD_MIN_SPEECH_FOR_MACHINE < d)
   \<or> (result (analyze_transcription text d) = HUMAN \<and> confidence (analyze_transcription text d) = 0.85)
   \<or> (result (analyze_transcription text d) = HUMAN \<and> confidence (analyze_transcription text d) = 0.7)
   \<or> (result (analyze_transcription text d) = UNKNOWN \<and> confidence (analyze_transcription text d) = 0.5)"
proof (cases "py_strip (py_lower text) = []")
  case True
  then show ?thesis by (simp add: analyze_empty analysis_def)
next
  case ne: False
  show ?thesis
  proof (cases "keywords_found (py_strip (py_lower text)) = []")
    case True
    with ne show ?thesis
      by (simp add: analyze_transcription_def Let_def analysis_def)
  next
    case False
    then have "1 \<le> length (keywords_found (py_strip (py_lower text)))"
      by (cases "keywords_found (py_strip (py_lower text))") auto
    then have "(1::rat) \<le> of_nat (length (keywords_found (py_strip (py_lower text))))"
      by (metis of_nat_1 of_nat_le_iff)
    then have "(0.8::rat) \<le> min 0.95 (0.7 + of_nat (length (keywords_found (py_strip (py_lower text)))) * 0.1)"
      by (simp add: min_def)
    moreover have "min 0.95 (0.7 + of_nat (length (keywords_found (py_strip (py_lower text)))) * 0.1) \<le> (0.95::rat)"
      by (rule min.cobounded1)
    ultimately show ?thesis
      using False by (simp only: analyze_keyword_branch analysis_def amd_result.simps simp_thms)
  qed
qed

lemma analyze_flags:
  "r_call_id (analyze_transcription text d) = None \<and> partial (analyze_transcription text d) = None
   \<and> forced (analyze_transcription text d) = None"
  by (simp add: analyze_transcription_def Let_def analysis_def)

lemma analyze_confident:
  "0.70 \<le> confidence (analyze_transcription text d) \<Longrightarrow> result (analyze_transcription text d) \<noteq> UNKNOWN"
  using analyze_outcomes [of "text" d] by auto

lemma analyze_range:
  "0 \<le> confidence (analyze_transcription text d) \<and> confidence (analyze_transcription text d) \<le> 1"
  using analyze_outcomes [of "text" d] by auto

lemma process_audio_decided:
  "decision_made s \<Longrightarrow> process_audio v s a = (Return (final_result s), s)"
  by (simp add: process_audio_def)

lemma force_decision_decided:
  "decision_made s \<Longrightarrow> force_decision v s = (final_result s, s)"
  by (simp add: force_decision_def)

lemma process_audio_partial:
  assumes "\<not> decision_made s"
    and "AcceptWaveform v (recognizer s) a = (False, rec1)"
    and "PartialResult v rec1 = (p, rec2)"
  shows "process_audio v s a =
    (if result (analyze_transcription p 0) = MACHINE \<and> 0.85 \<le> confidence (analyze_transcription p 0)
     then (Return (Some ((analyze_transcription p 0)\<lparr>r_call_id := Some (call_id s), partial := Some True\<rparr>)),
           s\<lparr>recognizer := rec2, decision_made := True,
             final_result := Some ((analyze_transcription p 0)\<lparr>r_call_id := Some (call_id s), partial := Some True\<rparr>)\<rparr>)
     else (Return None, s\<lparr>recognizer := rec2\<rparr>))"
proof (cases "p = []")
  case True
  then have "result (analyze_transcription p 0) = UNKNOWN"
    by (simp add: analyze_empty analysis_def py_strip_def py_lower_def)
  with assms True show ?thesis
    by (simp add: process_audio_def)
next
  case False
  with assms show ?thesis
    by (simp add: process_audio_def Let_def)
qed

lemma process_audio_final:
  assumes "\<not> decision_made s"
    and "AcceptWaveform v (recognizer s) a = (True, rec1)"
    and "Result v rec1 = (utt, rec2)"
  shows "process_audio v s a =
    (if utt = [] then (Return None, s\<lparr>recognizer := rec2\<rparr>)
     else if sample_rate s * 2 = 0
     then (Raise ZeroDivisionError, s\<lparr>recognizer := rec2, accumulated_text := accumulated_text s @ '' '' @ utt\<rparr>)
     else if 0.70 \<le> confidence (analyze_transcription (py_strip (accumulated_text s @ '' '' @ utt))
                (total_speech_duration s + of_nat (length a) / of_int (sample_rate s * 2)))
     then (Return (Some ((analyze_transcription (py_strip (accumulated_text s @ '' '' @ utt))
                (total_speech_duration s + of_nat (length a) / of_int (sample_rate s * 2)))
                  \<lparr>r_call_id := Some (call_id s)\<rparr>)),
           s\<lparr>recognizer := rec2, accumulated_text := accumulated_text s @ '' '' @ utt,
             total_speech_duration := total_speech_duration s + of_nat (length a) / of_int (sample_rate s * 2),
             decision_made := True,
             final_result := Some ((analyze_transcription (py_strip (accumulated_text s @ '' '' @ utt))
                (total_speech_duration s + of_nat (length a) / of_int (sample_rate s * 2)))
                  \<lparr>r_call_id := Some (call_id s)\<rparr>)\<rparr>)
     else (Return None,
           s\<lparr>recognizer := rec2, accumulated_text := accumulated_text s @ '' '' @ utt,
             total_speech_duration := total_speech_duration s + of_nat (length a) / of_int (sample_rate s * 2)\<rparr>))"
  using assms by (simp add: process_audio_def Let_def)

lemma force_decision_undecided:
  assumes "\<not> decision_made s"
    and "FinalResult v (recognizer s) = (final_text, rec1)"
  shows "force_decision v s =
    (Some ((analyze_transcription
              (py_strip (if final_text \<noteq> [] then accumulated_text s @ '' '' @ final_text
                         else accumulated_text s))
              (total_speech_duration s))\<lparr>r_call_id := Some (call_id s), forced := Some True\<rparr>),
     s\<lparr>recognizer := rec1,
       accumulated_text := (if final_text \<noteq> [] then accumulated_text s @ '' '' @ final_text
                            else accumulated_text s),
       decision_made := True,
       final_result := Some ((analyze_transcription
              (py_strip (if final_text \<noteq> [] then accumulated_text s @ '' '' @ final_text
                         else accumulated_text s))
              (total_speech_duration s))\<lparr>r_call_id := Some (call_id s), forced := Some True\<rparr>)\<rparr>)"
  using assms by (simp add: force_decision_def Let_def)

lemma process_audio_cases:
  obtains (decided) "decision_made s"
  | (final) rec1 utt rec2 where "\<not> decision_made s"
      "AcceptWaveform v (recognizer s) a = (True, rec1)" "Result v rec1 = (utt, rec2)"
  | (partial) rec1 p rec2 where "\<not> decision_made s"
      "AcceptWaveform v (recognizer s) a = (False, rec1)" "PartialResult v rec1 = (p, rec2)"
proof (cases "decision_made s")
  case True
  then show ?thesis by (rule decided)
next
  case False
  obtain b rec1 where acc: "AcceptWaveform v (recognizer s) a = (b, rec1)"
    by (cases "AcceptWaveform v (recognizer s) a")
  show ?thesis
  proof (cases b)
    case True
    obtain utt rec2 where "Result v rec1 = (utt, rec2)"
      by (cases "Result v rec1")
    with False acc True show ?thesis by (intro final) auto
  next
    case nb: False
    obtain p rec2 where "PartialResult v rec1 = (p, rec2)"
      by (cases "PartialResult v rec1")
    with False acc nb show ?thesis by (intro partial) auto
  qed
qed

lemma process_audio_undecided_some:
  assumes "\<not> decision_made s" and "fst (process_audio v s a) = Return (Some r)"
  shows "0.70 \<le> confidence r \<and> result r \<noteq> UNKNOWN \<and> forced r = None
         \<and> decision_made (snd (process_audio v s a))
         \<and> final_result (snd (process_audio v s a)) = Some r"
proof (cases rule: process_audio_cases [where s=s and v=v and a=a])
  case decided
  with assms show ?thesis by simp
next
  case (final rec1 utt rec2)
  from assms(2) show ?thesis
    unfolding process_audio_final [OF final]
    using analyze_confident analyze_flags
    by (auto split: if_splits)
next
  case (partial rec1 p rec2)
  from assms(2) show ?thesis
    unfolding process_audio_partial [OF partial]
    using analyze_flags
    by (auto split: if_splits)
qed

lemma process_audio_undecided_none:
  assumes "\<not> decision_made s" and "fst (process_audio v s a) = Return None"
  shows "\<not> decision_made (snd (process_audio v s a))
         \<and> final_result (snd (process_audio v s a)) = final_result s"
proof (cases rule: process_audio_cases [where s=s and v=v and a=a])
  case decided
  with assms show ?thesis by simp
next
  case (final rec1 utt rec2)
  from assms show ?thesis
    unfolding process_audio_final [OF final]
    by (auto split: if_splits)
next
  case (partial rec1 p rec2)
  from assms show ?thesis
    unfolding process_audio_partial [OF partial]
    by (auto split: if_splits)
qed

lemma process_audio_raise:
  assumes "fst (process_audio v s a) = Raise e"
  shows "sample_rate s = 0 \<and> \<not> decision_made s \<and> \<not> decision_made (snd (process_audio v s a))
         \<and> final_result (snd (process_audio v s a)) = final_result s
         \<and> total_speech_duration (snd (process_audio v s a)) = total_speech_duration s"
proof (cases rule: process_audio_cases [where s=s and v=v and a=a])
  case decided
  with assms show ?thesis by (simp add: process_audio_decided)
next
  case (final rec1 utt rec2)
  from assms final(1) show ?thesis
    unfolding process_audio_final [OF final]
    by (auto split: if_splits)
next
  case (partial rec1 p rec2)
  from assms show ?thesis
    unfolding process_audio_partial [OF partial]
    by (auto split: if_splits)
qed

lemma process_audio_keeps:
  "sample_rate (snd (process_audio v s a)) = sample_rate s
   \<and> call_id (snd (process_audio v s a)) = call_id s"
proof (cases rule: process_audio_cases [where s=s and v=v and a=a])
  case decided
  then show ?thesis by (simp add: process_audio_decided)
next
  case (final rec1 utt rec2)
  show ?thesis
    unfolding process_audio_final [OF final] by simp
next
  case (partial rec1 p rec2)
  show ?thesis
    unfolding process_audio_partial [OF partial] by simp
qed

lemma process_audio_duration:
  assumes "0 \<le> sample_rate s"
  shows "total_speech_duration s \<le> total_speech_duration (snd (process_audio v s a))"
proof (cases rule: process_audio_cases [where s=s and v=v and a=a])
  case decided
  then show ?thesis by (simp add: process_audio_decided)
next
  case (final rec1 utt rec2)
  from assms have "(0::rat) \<le> of_nat (length a) / of_int (sample_rate s * 2)"
    by simp
  then show ?thesis
    unfolding process_audio_final [OF final] by simp
next
  case (partial rec1 p rec2)
  show ?thesis
    unfolding process_audio_partial [OF partial] by simp
qed

lemma process_audio_stays_decided:
  "decision_made s \<Longrightarrow> decision_made (snd (process_audio v s a))"
  by (simp add: process_audio_decided)

lemma force_decision_decides:
  "decision_made (snd (force_decision v s))"
  by (cases "FinalResult v (recognizer s)") (simp add: force_decision_def Let_def)

lemma force_decision_keeps:
  "total_speech_duration (snd (force_decision v s)) = total_speech_duration s
   \<and> sample_rate (snd (force_decision v s)) = sample_rate s
   \<and> call_id (snd (force_decision v s)) = call_id s"
  by (cases "FinalResult v (recognizer s)") (simp add: force_decision_def Let_def)

lemma force_decision_undecided_some:
  assumes "\<not> decision_made s"
  shows "\<exists>r. fst (force_decision v s) = Some r \<and> forced r = Some True
            \<and> final_result (snd (force_decision v s)) = Some r"
proof -
  obtain ft rec1 where f: "FinalResult v (recognizer s) = (ft, rec1)"
    by (cases "FinalResult v (recognizer s)")
  show ?thesis
    unfolding force_decision_undecided [OF assms f] by simp
qed

lemma run_call_keeps:
  "sample_rate (run_call v s c) = sample_rate s \<and> call_id (run_call v s c) = call_id s"
  by (cases c) (simp_all add: process_audio_keeps force_decision_keeps)

lemma run_call_duration:
  "0 \<le> sample_rate s \<Longrightarrow> total_speech_duration s \<le> total_speech_duration (run_call v s c)"
  by (cases c) (simp_all add: process_audio_duration force_decision_keeps)

lemma run_call_stays_decided:
  "decision_made s \<Longrightarrow> decision_made (run_call v s c)"
  by (cases c) (simp_all add: process_audio_stays_decided force_decision_decides)

lemma run_call_unknown_forced:
  assumes "\<forall>r. final_result s = Some r \<longrightarrow> result r = UNKNOWN \<longrightarrow> forced r = Some True"
  shows "\<forall>r. final_result (run_call v s c) = Some r \<longrightarrow> result r = UNKNOWN \<longrightarrow> forced r = Some True"
proof (cases c)
  case (ProcessAudio a)
  show ?thesis
  proof (cases "decision_made s")
    case True
    with assms ProcessAudio show ?thesis by (simp add: process_audio_decided)
  next
    case False
    show ?thesis
    proof (cases "fst (process_audio v s a)")
      case (Return ro)
      show ?thesis
      proof (cases ro)
        case None
        with Return False assms ProcessAudio show ?thesis
          using process_audio_undecided_none [of s v a] by simp
      next
        case (Some r')
        with Return False ProcessAudio show ?thesis
          using process_audio_undecided_some [of s v a r'] by auto
      qed
    next
      case (Raise e)
      with assms ProcessAudio show ?thesis
        using process_audio_raise [of v s a e] by simp
    qed
  qed
next
  case ForceDecision
  show ?thesis
  proof (cases "decision_made s")
    case True
    with assms ForceDecision show ?thesis by (simp add: force_decision_decided)
  next
    case False
    with ForceDecision show ?thesis
      using force_decision_undecided_some [of s v] by auto
  qed
qed

lemma run_calls_duration:
  "0 \<le> sample_rate s \<Longrightarrow> total_speech_duration s \<le> total_speech_duration (run_calls v s cs)"
proof (induction cs arbitrary: s)
  case Nil
  then show ?case by simp
next
  case (Cons c cs)
  from Cons.prems have "0 \<le> sample_rate (run_call v s c)"
    by (simp add: run_call_keeps)
  then have "total_speech_duration (run_call v s c) \<le> total_speech_duration (run_calls v (run_call v s c) cs)"
    by (rule Cons.IH)
  with run_call_duration [OF Cons.prems, of v c] show ?case
    by simp
qed

lemma run_calls_stays_decided:
  "decision_made s \<Longrightarrow> decision_made (run_calls v s cs)"
  by (induction cs arbitrary: s) (simp_all add: run_call_stays_decided)

lemma run_calls_unknown_forced:
  "\<forall>r. final_result s = Some r \<longrightarrow> result r = UNKNOWN \<longrightarrow> forced r = Some True \<Longrightarrow>
   \<forall>r. final_result (run_calls v s cs) = Some r \<longrightarrow> result r = UNKNOWN \<longrightarrow> forced r = Some True"
proof (induction cs arbitrary: s)
  case Nil
  then show ?case by simp
next
  case (Cons c cs)
  from Cons.prems have "\<forall>r. final_result (run_call v s c) = Some r \<longrightarrow> result r = UNKNOWN \<longrightarrow> forced r = Some True"
    by (rule run_call_unknown_forced)
  then show ?case
    using Cons.IH [of "run_call v s c"] by simp
qed

section \<open>The greeting rule\<close>

lemma split_acc_sublist:
  "w \<in> set (split_acc cur cs) \<Longrightarrow> sublist w (cur @ cs)"
proof (induction cs arbitrary: cur)
  case Nil
  then show ?case by (auto split: if_splits)
next
  case (Cons c cs)
  show ?case
  proof (cases "isspace c")
    case True
    with Cons.prems have "w = cur \<or> w \<in> set (split_acc [] cs)"
      by (auto split: if_splits)
    then show ?thesis
    proof
      assume "w = cur"
      then show ?thesis by simp
    next
      assume "w \<in> set (split_acc [] cs)"
      then have "sublist w ([] @ cs)" by (rule Cons.IH)
      then have "sublist w cs" by simp
      then show ?thesis
        by (simp add: sublist_append sublist_Cons_right)
    qed
  next
    case False
    with Cons.prems have "w \<in> set (split_acc (cur @ [c]) cs)"
      by simp
    then have "sublist w ((cur @ [c]) @ cs)" by (rule Cons.IH)
    then show ?thesis by simp
  qed
qed

lemma py_split_sublist: "w \<in> set (py_split t) \<Longrightarrow> sublist w t"
  using split_acc_sublist [of w "[]" t] by (simp add: py_split_def)

lemma analyze_greeting_branch:
  assumes "keywords_found (py_strip (py_lower text)) = []"
    and "length (py_split (py_strip (py_lower text))) \<le> 3"
    and "g \<in> set human_greetings"
    and "sublist g (py_strip (py_lower text))"
  shows "analyze_transcription text d =
     analysis HUMAN 0.85 (HumanGreeting (py_strip (py_lower text))) (py_strip (py_lower text)) None"
proof -
  from greetings_nonempty assms(3) have "g \<noteq> []"
    by (auto simp: list_all_iff)
  with assms(4) have ne: "py_strip (py_lower text) \<noteq> []"
    by auto
  from assms(3,4) have ex: "list_ex (\<lambda>greeting. sublist greeting (py_strip (py_lower text))) human_greetings"
    by (auto simp: list_ex_iff)
  from assms(1,2) ne ex show ?thesis
    by (simp add: analyze_transcription_def Let_def)
qed

text \<open>
  C4 (as the code has it). If no voicemail keyword occurs in the normalized text, the
  normalized text has at most three words and some entry of the greeting vocabulary occurs
  in it as a substring, which is the case in particular when one of its words equals an
  entry, then the classifier answers HUMAN with confidence 0.85. The test is
  \<open>greeting in text_lower\<close>: a word that merely contains an entry is enough.
\<close>

theorem greeting_rule:
  assumes "keywords_found (py_strip (py_lower text)) = []"
    and "length (py_split (py_strip (py_lower text))) \<le> 3"
    and "g \<in> set human_greetings"
    and "g \<in> set (py_split (py_strip (py_lower text))) \<or> sublist g (py_strip (py_lower text))"
  shows "result (analyze_transcription text d) = HUMAN
       \<and> confidence (analyze_transcription text d) = 0.85"
proof -
  from assms(4) have "sublist g (py_strip (py_lower text))"
    using py_split_sublist by blast
  with assms(1-3) show ?thesis
    by (simp add: analyze_greeting_branch analysis_def)
qed

theorem greeting_rule_witness:
  "keywords_found (py_strip (py_lower ''hola'')) = []
   \<and> length (py_split (py_strip (py_lower ''hola''))) \<le> 3
   \<and> ''hola'' \<in> set human_greetings
   \<and> ''hola'' \<in> set (py_split (py_strip (py_lower ''hola'')))
   \<and> result (analyze_transcription ''hola'' 0.5) = HUMAN
   \<and> confidence (analyze_transcription ''hola'' 0.5) = 0.85"
proof -
  have h1: "keywords_found (py_strip (py_lower ''hola'')) = []"
    by code_simp
  have h2: "length (py_split (py_strip (py_lower ''hola''))) \<le> 3"
    by code_simp
  have h3: "''hola'' \<in> set human_greetings"
    by code_simp
  have h4: "''hola'' \<in> set (py_split (py_strip (py_lower ''hola'')))"
    by code_simp
  from greeting_rule [OF h1 h2 h3, of "0.5"] h4
  have "result (analyze_transcription ''hola'' 0.5) = HUMAN
       \<and> confidence (analyze_transcription ''hola'' 0.5) = 0.85"
    by blast
  with h1 h2 h3 h4 show ?thesis by blast
qed

text \<open>
  The normalized text \<open>casino\<close> is one word, that word is not in the greeting vocabulary
  (it contains the entry \<open>si\<close>), and the greeting rule answers HUMAN 0.85 for it.
\<close>

theorem greeting_word_equality_counterexample:
  "py_split (py_strip (py_lower ''casino'')) = [''casino'']
   \<and> ''casino'' \<notin> set human_greetings
   \<and> keywords_found (py_strip (py_lower ''casino'')) = []
   \<and> analyze_transcription ''casino'' 0 =
       analysis HUMAN 0.85 (HumanGreeting ''casino'') ''casino'' None"
  by code_simp

section \<open>The streaming controller\<close>

lemma decision_loop_first_decision:
  assumes "\<not> decision_made s" and "sample_rate s \<noteq> 0"
    and "WebSocketDisconnect \<notin> snd ` set (takeWhile (\<lambda>t. fst t \<le> AMD_DECISION_TIMEOUT_SECONDS) ticks)"
    and "\<exists>t\<in>set ticks. AMD_DECISION_TIMEOUT_SECONDS < fst t"
  shows "\<exists>pre t post r. ticks = pre @ t # post
           \<and> \<not> decision_made (run_calls v s (concat (map tick_call pre)))
           \<and> decision_made (run_calls v s (concat (map tick_call (pre @ [t]))))
           \<and> final_result (run_calls v s (concat (map tick_call (pre @ [t])))) = Some r
           \<and> (forced r = Some True \<longleftrightarrow> AMD_DECISION_TIMEOUT_SECONDS < fst t)
           \<and> decision_loop v s ticks
               = Some (Break, [Json (Some r)], run_calls v s (concat (map tick_call (pre @ [t]))))"
  using assms
proof (induction ticks arbitrary: s)
  case Nil
  then show ?case by simp
next
  case (Cons t ticks)
  obtain elapsed rcv where t: "t = (elapsed, rcv)"
    by (cases t)
  show ?case
  proof (cases "AMD_DECISION_TIMEOUT_SECONDS < elapsed")
    case True
    from force_decision_undecided_some [OF Cons.prems(1), of v]
    obtain r where r: "fst (force_decision v s) = Some r" "forced r = Some True"
      "final_result (snd (force_decision v s)) = Some r"
      by blast
    have "t # ticks = [] @ t # ticks
           \<and> \<not> decision_made (run_calls v s (concat (map tick_call [])))
           \<and> decision_made (run_calls v s (concat (map tick_call ([] @ [t]))))
           \<and> final_result (run_calls v s (concat (map tick_call ([] @ [t])))) = Some r
           \<and> (forced r = Some True \<longleftrightarrow> AMD_DECISION_TIMEOUT_SECONDS < fst t)
           \<and> decision_loop v s (t # ticks)
               = Some (Break, [Json (Some r)], run_calls v s (concat (map tick_call ([] @ [t]))))"
      using True r Cons.prems(1) force_decision_decides [of v s]
      by (simp add: t case_prod_beta)
    then show ?thesis by blast
  next
    case False
    with Cons.prems(3,4) have tail:
      "WebSocketDisconnect \<notin> snd ` set (takeWhile (\<lambda>t. fst t \<le> AMD_DECISION_TIMEOUT_SECONDS) ticks)"
      "\<exists>t\<in>set ticks. AMD_DECISION_TIMEOUT_SECONDS < fst t"
      and here: "rcv \<noteq> WebSocketDisconnect"
      by (auto simp: t)
    show ?thesis
    proof (cases rcv)
      case (Frame a)
      show ?thesis
      proof (cases "fst (process_audio v s a)")
        case (Raise e)
        with process_audio_raise [of v s a e] Cons.prems(2) show ?thesis
          by simp
      next
        case (Return ro)
        show ?thesis
        proof (cases ro)
          case None
          from Return None process_audio_undecided_none [OF Cons.prems(1), of v a]
          have "\<not> decision_made (snd (process_audio v s a))"
            by simp
          moreover from Cons.prems(2) have "sample_rate (snd (process_audio v s a)) \<noteq> 0"
            by (simp add: process_audio_keeps)
          ultimately obtain pre t' post r where ih:
            "ticks = pre @ t' # post"
            "\<not> decision_made (run_calls v (snd (process_audio v s a)) (concat (map tick_call pre)))"
            "decision_made (run_calls v (snd (process_audio v s a)) (concat (map tick_call (pre @ [t']))))"
            "final_result (run_calls v (snd (process_audio v s a)) (concat (map tick_call (pre @ [t'])))) = Some r"
            "forced r = Some True \<longleftrightarrow> AMD_DECISION_TIMEOUT_SECONDS < fst t'"
            "decision_loop v (snd (process_audio v s a)) ticks
               = Some (Break, [Json (Some r)],
                   run_calls v (snd (process_audio v s a)) (concat (map tick_call (pre @ [t']))))"
            using Cons.IH [OF _ _ tail, of "snd (process_audio v s a)"] by blast
          have "t # ticks = (t # pre) @ t' # post
           \<and> \<not> decision_made (run_calls v s (concat (map tick_call (t # pre))))
           \<and> decision_made (run_calls v s (concat (map tick_call ((t # pre) @ [t']))))
           \<and> final_result (run_calls v s (concat (map tick_call ((t # pre) @ [t'])))) = Some r
           \<and> (forced r = Some True \<longleftrightarrow> AMD_DECISION_TIMEOUT_SECONDS < fst t')
           \<and> decision_loop v s (t # ticks)
               = Some (Break, [Json (Some r)], run_calls v s (concat (map tick_call ((t # pre) @ [t']))))"
            using ih False Frame Return None
            by (simp add: t case_prod_beta)
          then show ?thesis by blast
        next
          case (Some r)
          from Return Some process_audio_undecided_some [OF Cons.prems(1), of v a r]
          have d: "decision_made (snd (process_audio v s a))"
            "final_result (snd (process_audio v s a)) = Some r"
            "forced r = None"
            by simp_all
          have "t # ticks = [] @ t # ticks
           \<and> \<not> decision_made (run_calls v s (concat (map tick_call [])))
           \<and> decision_made (run_calls v s (concat (map tick_call ([] @ [t]))))
           \<and> final_result (run_calls v s (concat (map tick_call ([] @ [t])))) = Some r
           \<and> (forced r = Some True \<longleftrightarrow> AMD_DECISION_TIMEOUT_SECONDS < fst t)
           \<and> decision_loop v s (t # ticks)
               = Some (Break, [Json (Some r)], run_calls v s (concat (map tick_call ([] @ [t]))))"
            using d False Frame Return Some Cons.prems(1)
            by (simp add: t case_prod_beta)
          then show ?thesis by blast
        qed
      qed
    next
      case TimeoutError
      from Cons.IH [OF Cons.prems(1,2) tail]
      obtain pre t' post r where ih:
        "ticks = pre @ t' # post"
        "\<not> decision_made (run_calls v s (concat (map tick_call pre)))"
        "decision_made (run_calls v s (concat (map tick_call (pre @ [t']))))"
        "final_result (run_calls v s (concat (map tick_call (pre @ [t'])))) = Some r"
        "forced r = Some True \<longleftrightarrow> AMD_DECISION_TIMEOUT_SECONDS < fst t'"
        "decision_loop v s ticks
           = Some (Break, [Json (Some r)], run_calls v s (concat (map tick_call (pre @ [t']))))"
        by blast
      have "t # ticks = (t # pre) @ t' # post
           \<and> \<not> decision_made (run_calls v s (concat (map tick_call (t # pre))))
           \<and> decision_made (run_calls v s (concat (map tick_call ((t # pre) @ [t']))))
           \<and> final_result (run_calls v s (concat (map tick_call ((t # pre) @ [t'])))) = Some r
           \<and> (forced r = Some True \<longleftrightarrow> AMD_DECISION_TIMEOUT_SECONDS < fst t')
           \<and> decision_loop v s (t # ticks)
               = Some (Break, [Json (Some r)], run_calls v s (concat (map tick_call ((t # pre) @ [t']))))"
        using ih False TimeoutError
        by (simp add: t)
      then show ?thesis by blast
    next
      case WebSocketDisconnect
      with here show ?thesis by simp
    qed
  qed
qed

lemma AMDSession_init_fields:
  "\<not> decision_made (AMDSession_init v cid rate) \<and> sample_rate (AMDSession_init v cid rate) = rate
   \<and> call_id (AMDSession_init v cid rate) = cid \<and> final_result (AMDSession_init v cid rate) = None
   \<and> total_speech_duration (AMDSession_init v cid rate) = 0"
  by (simp add: AMDSession_init_def)

lemma analyze_audio_one_result:
  assumes "rate \<noteq> 0"
  shows "\<exists>r. analyze_audio v cid audio_data rate = Inr (Some r)
           \<and> final_result (run_calls v (AMDSession_init v cid rate)
                 [ProcessAudio audio_data, ForceDecision]) = Some r"
proof -
  let ?s = "AMDSession_init v cid rate"
  have und: "\<not> decision_made ?s" and rt: "sample_rate ?s \<noteq> 0"
    using assms by (simp_all add: AMDSession_init_fields)
  show ?thesis
  proof (cases "fst (process_audio v ?s audio_data)")
    case (Raise e)
    with process_audio_raise [of v ?s audio_data e] rt show ?thesis
      by simp
  next
    case (Return ro)
    show ?thesis
    proof (cases ro)
      case None
      from Return None process_audio_undecided_none [OF und, of v audio_data]
      have "\<not> decision_made (snd (process_audio v ?s audio_data))"
        by simp
      from force_decision_undecided_some [OF this, of v]
      obtain r where "fst (force_decision v (snd (process_audio v ?s audio_data))) = Some r"
        "final_result (snd (force_decision v (snd (process_audio v ?s audio_data)))) = Some r"
        by blast
      with Return None show ?thesis
        by (simp add: analyze_audio_def Let_def case_prod_beta)
    next
      case (Some r)
      from Return Some process_audio_undecided_some [OF und, of v audio_data r]
      have "decision_made (snd (process_audio v ?s audio_data))"
        "final_result (snd (process_audio v ?s audio_data)) = Some r"
        by simp_all
      with Return Some show ?thesis
        by (simp add: analyze_audio_def Let_def case_prod_beta force_decision_decided)
    qed
  qed
qed

text \<open>
  C6 (as the code has it). Take any sequence of loop iterations in which the clock read at
  the top of some iteration exceeds the decision timeout ("the controller runs for longer
  than the deadline") and the client does not disconnect in an iteration before that; the
  frames and the recogniser are arbitrary, and total silence is the case of no frame at
  all. The iterations then split at one iteration \<open>t\<close>: the session calls of the iterations
  before \<open>t\<close> leave the session undecided, the call of \<open>t\<close> decides it, and the result
  \<open>r\<close> cached by that call is what the controller sends, once, before it stops. It is
  marked forced exactly when \<open>t\<close> is an iteration past the timeout (the call is then
  \<open>force_decision\<close>, otherwise \<open>process_audio\<close> on the frame of \<open>t\<close>).
  \<^item> \<open>websocket_amd\<close>, whose sessions have sample rate 8000: \<open>r\<close> is the only message,
    the registry entry of the call is removed, the session object is left in that state.
  \<^item> \<open>websocket_stream\<close>, when the configured sample rate is not 0: the messages are
    the ready notice and \<open>r\<close>. A missing configuration key acts as its default.
  \<^item> \<open>analyze_audio\<close>, when the sample rate is not 0: the answer is the result cached
    after \<open>process_audio\<close> on the buffer followed by \<open>force_decision\<close>.
\<close>

theorem controller_one_result:
  "(WebSocketDisconnect \<notin> snd ` set (takeWhile (\<lambda>t. fst t \<le> AMD_DECISION_TIMEOUT_SECONDS) ticks)
      \<and> (\<exists>t\<in>set ticks. AMD_DECISION_TIMEOUT_SECONDS < fst t)
    \<longrightarrow> (\<exists>pre t post r. ticks = pre @ t # post
           \<and> \<not> decision_made (run_calls v (AMDSession_init v cid 8000) (concat (map tick_call pre)))
           \<and> decision_made (run_calls v (AMDSession_init v cid 8000) (concat (map tick_call (pre @ [t]))))
           \<and> final_result (run_calls v (AMDSession_init v cid 8000) (concat (map tick_call (pre @ [t]))))
               = Some r
           \<and> (forced r = Some True \<longleftrightarrow> AMD_DECISION_TIMEOUT_SECONDS < fst t)
           \<and> (\<exists>srv'. websocket_amd v srv cid ticks = Some ([Json (Some r)], srv')
                 \<and> active_sessions srv' cid = None
                 \<and> objects srv' (next_id srv)
                     = Some (run_calls v (AMDSession_init v cid 8000) (concat (map tick_call (pre @ [t])))))))
   \<and> (WebSocketDisconnect \<notin> snd ` set (takeWhile (\<lambda>t. fst t \<le> AMD_DECISION_TIMEOUT_SECONDS) ticks)
      \<and> (\<exists>t\<in>set ticks. AMD_DECISION_TIMEOUT_SECONDS < fst t) \<and> rate \<noteq> 0
    \<longrightarrow> (\<exists>pre t post r. ticks = pre @ t # post
           \<and> \<not> decision_made (run_calls v (AMDSession_init v cid rate) (concat (map tick_call pre)))
           \<and> decision_made (run_calls v (AMDSession_init v cid rate) (concat (map tick_call (pre @ [t]))))
           \<and> final_result (run_calls v (AMDSession_init v cid rate) (concat (map tick_call (pre @ [t]))))
               = Some r
           \<and> (forced r = Some True \<longleftrightarrow> AMD_DECISION_TIMEOUT_SECONDS < fst t)
           \<and> decision_loop v (AMDSession_init v cid rate) ticks
               = Some (Break, [Json (Some r)],
                   run_calls v (AMDSession_init v cid rate) (concat (map tick_call (pre @ [t]))))
           \<and> map_option fst (websocket_stream v srv (Some cid) (Some rate) ticks)
               = Some [ReadyJson cid, Json (Some r)]))
   \<and> websocket_stream v srv None cfg_rate ticks = websocket_stream v srv (Some ''unknown'') cfg_rate ticks
   \<and> websocket_stream v srv cfg_cid None ticks = websocket_stream v srv cfg_cid (Some 8000) ticks
   \<and> (rate \<noteq> 0
    \<longrightarrow> (\<exists>r. analyze_audio v cid audio_data rate = Inr (Some r)
           \<and> final_result (run_calls v (AMDSession_init v cid rate)
                 [ProcessAudio audio_data, ForceDecision]) = Some r))"
proof -
  have a: "WebSocketDisconnect \<notin> snd ` set (takeWhile (\<lambda>t. fst t \<le> AMD_DECISION_TIMEOUT_SECONDS) ticks)
      \<and> (\<exists>t\<in>set ticks. AMD_DECISION_TIMEOUT_SECONDS < fst t)
    \<longrightarrow> (\<exists>pre t post r. ticks = pre @ t # post
           \<and> \<not> decision_made (run_calls v (AMDSession_init v cid 8000) (concat (map tick_call pre)))
           \<and> decision_made (run_calls v (AMDSession_init v cid 8000) (concat (map tick_call (pre @ [t]))))
           \<and> final_result (run_calls v (AMDSession_init v cid 8000) (concat (map tick_call (pre @ [t]))))
               = Some r
           \<and> (forced r = Some True \<longleftrightarrow> AMD_DECISION_TIMEOUT_SECONDS < fst t)
           \<and> (\<exists>srv'. websocket_amd v srv cid ticks = Some ([Json (Some r)], srv')
                 \<and> active_sessions srv' cid = None
                 \<and> objects srv' (next_id srv)
                     = Some (run_calls v (AMDSession_init v cid 8000) (concat (map tick_call (pre @ [t]))))))"
  proof
    assume h: "WebSocketDisconnect \<notin> snd ` set (takeWhile (\<lambda>t. fst t \<le> AMD_DECISION_TIMEOUT_SECONDS) ticks)
      \<and> (\<exists>t\<in>set ticks. AMD_DECISION_TIMEOUT_SECONDS < fst t)"
    have "\<not> decision_made (AMDSession_init v cid 8000)" "sample_rate (AMDSession_init v cid 8000) \<noteq> 0"
      by (simp_all add: AMDSession_init_fields)
    from decision_loop_first_decision [OF this, of ticks v] h
    obtain pre t post r where f:
      "ticks = pre @ t # post"
      "\<not> decision_made (run_calls v (AMDSession_init v cid 8000) (concat (map tick_call pre)))"
      "decision_made (run_calls v (AMDSession_init v cid 8000) (concat (map tick_call (pre @ [t]))))"
      "final_result (run_calls v (AMDSession_init v cid 8000) (concat (map tick_call (pre @ [t])))) = Some r"
      "forced r = Some True \<longleftrightarrow> AMD_DECISION_TIMEOUT_SECONDS < fst t"
      "decision_loop v (AMDSession_init v cid 8000) ticks
         = Some (Break, [Json (Some r)],
             run_calls v (AMDSession_init v cid 8000) (concat (map tick_call (pre @ [t]))))"
      by blast
    from f(6) have "\<exists>srv'. websocket_amd v srv cid ticks = Some ([Json (Some r)], srv')
                 \<and> active_sessions srv' cid = None
                 \<and> objects srv' (next_id srv)
                     = Some (run_calls v (AMDSession_init v cid 8000) (concat (map tick_call (pre @ [t]))))"
      by (simp add: websocket_amd_def create_session_def remove_session_def Let_def)
    with f(1-5) show "\<exists>pre t post r. ticks = pre @ t # post
           \<and> \<not> decision_made (run_calls v (AMDSession_init v cid 8000) (concat (map tick_call pre)))
           \<and> decision_made (run_calls v (AMDSession_init v cid 8000) (concat (map tick_call (pre @ [t]))))
           \<and> final_result (run_calls v (AMDSession_init v cid 8000) (concat (map tick_call (pre @ [t]))))
               = Some r
           \<and> (forced r = Some True \<longleftrightarrow> AMD_DECISION_TIMEOUT_SECONDS < fst t)
           \<and> (\<exists>srv'. websocket_amd v srv cid ticks = Some ([Json (Some r)], srv')
                 \<and> active_sessions srv' cid = None
                 \<and> objects srv' (next_id srv)
                     = Some (run_calls v (AMDSession_init v cid 8000) (concat (map tick_call (pre @ [t])))))"
      by blast
  qed
  have b: "WebSocketDisconnect \<notin> snd ` set (takeWhile (\<lambda>t. fst t \<le> AMD_DECISION_TIMEOUT_SECONDS) ticks)
      \<and> (\<exists>t\<in>set ticks. AMD_DECISION_TIMEOUT_SECONDS < fst t) \<and> rate \<noteq> 0
    \<longrightarrow> (\<exists>pre t post r. ticks = pre @ t # post
           \<and> \<not> decision_made (run_calls v (AMDSession_init v cid rate) (concat (map tick_call pre)))
           \<and> decision_made (run_calls v (AMDSession_init v cid rate) (concat (map tick_call (pre @ [t]))))
           \<and> final_result (run_calls v (AMDSession_init v cid rate) (concat (map tick_call (pre @ [t]))))
               = Some r
           \<and> (forced r = Some True \<longleftrightarrow> AMD_DECISION_TIMEOUT_SECONDS < fst t)
           \<and> decision_loop v (AMDSession_init v cid rate) ticks
               = Some (Break, [Json (Some r)],
                   run_calls v (AMDSession_init v cid rate) (concat (map tick_call (pre @ [t]))))
           \<and> map_option fst (websocket_stream v srv (Some cid) (Some rate) ticks)
               = Some [ReadyJson cid, Json (Some r)])"
  proof
    assume h: "WebSocketDisconnect \<notin> snd ` set (takeWhile (\<lambda>t. fst t \<le> AMD_DECISION_TIMEOUT_SECONDS) ticks)
      \<and> (\<exists>t\<in>set ticks. AMD_DECISION_TIMEOUT_SECONDS < fst t) \<and> rate \<noteq> 0"
    then have "\<not> decision_made (AMDSession_init v cid rate)" "sample_rate (AMDSession_init v cid rate) \<noteq> 0"
      by (simp_all add: AMDSession_init_fields)
    from decision_loop_first_decision [OF this, of ticks v] h
    obtain pre t post r where f:
      "ticks = pre @ t # post"
      "\<not> decision_made (run_calls v (AMDSession_init v cid rate) (concat (map tick_call pre)))"
      "decision_made (run_calls v (AMDSession_init v cid rate) (concat (map tick_call (pre @ [t]))))"
      "final_result (run_calls v (AMDSession_init v cid rate) (concat (map tick_call (pre @ [t])))) = Some r"
      "forced r = Some True \<longleftrightarrow> AMD_DECISION_TIMEOUT_SECONDS < fst t"
      "decision_loop v (AMDSession_init v cid rate) ticks
         = Some (Break, [Json (Some r)],
             run_calls v (AMDSession_init v cid rate) (concat (map tick_call (pre @ [t]))))"
      by blast
    from f(6) have "map_option fst (websocket_stream v srv (Some cid) (Some rate) ticks)
               = Some [ReadyJson cid, Json (Some r)]"
      by (simp add: websocket_stream_def create_session_def Let_def)
    with f show "\<exists>pre t post r. ticks = pre @ t # post
           \<and> \<not> decision_made (run_calls v (AMDSession_init v cid rate) (concat (map tick_call pre)))
           \<and> decision_made (run_calls v (AMDSession_init v cid rate) (concat (map tick_call (pre @ [t]))))
           \<and> final_result (run_calls v (AMDSession_init v cid rate) (concat (map tick_call (pre @ [t]))))
               = Some r
           \<and> (forced r = Some True \<longleftrightarrow> AMD_DECISION_TIMEOUT_SECONDS < fst t)
           \<and> decision_loop v (AMDSession_init v cid rate) ticks
               = Some (Break, [Json (Some r)],
                   run_calls v (AMDSession_init v cid rate) (concat (map tick_call (pre @ [t]))))
           \<and> map_option fst (websocket_stream v srv (Some cid) (Some rate) ticks)
               = Some [ReadyJson cid, Json (Some r)]"
      by blast
  qed
  have c: "websocket_stream v srv None cfg_rate ticks = websocket_stream v srv (Some ''unknown'') cfg_rate ticks"
    by (simp add: websocket_stream_def)
  have d: "websocket_stream v srv cfg_cid None ticks = websocket_stream v srv cfg_cid (Some 8000) ticks"
    by (simp add: websocket_stream_def)
  have e: "rate \<noteq> 0
    \<longrightarrow> (\<exists>r. analyze_audio v cid audio_data rate = Inr (Some r)
           \<and> final_result (run_calls v (AMDSession_init v cid rate)
                 [ProcessAudio audio_data, ForceDecision]) = Some r)"
    using analyze_audio_one_result [of rate v cid audio_data] by blast
  show ?thesis
    by (intro conjI a b c d e)
qed

theorem controller_one_result_witness:
  "WebSocketDisconnect \<notin> snd ` set (takeWhile (\<lambda>t. fst t \<le> AMD_DECISION_TIMEOUT_SECONDS)
       [(0, Frame (frame 4)), (0.5, TimeoutError), (1, Frame (frame 4)), (3.6, WebSocketDisconnect)])
   \<and> (\<exists>t\<in>set [(0, Frame (frame 4)), (0.5, TimeoutError), (1, Frame (frame 4)), (3.6, WebSocketDisconnect)].
         AMD_DECISION_TIMEOUT_SECONDS < fst t)
   \<and> (16000::int) \<noteq> 0
   \<and> (\<exists>pre t post r.
          [(0, Frame (frame 4)), (0.5, TimeoutError), (1, Frame (frame 4)), (3.6, WebSocketDisconnect)]
            = pre @ t # post
        \<and> \<not> decision_made (run_calls (scripted [Partial ''buzon'', Final ''hola''])
              (AMDSession_init (scripted [Partial ''buzon'', Final ''hola'']) ''call-1'' 8000)
              (concat (map tick_call pre)))
        \<and> decision_made (run_calls (scripted [Partial ''buzon'', Final ''hola''])
              (AMDSession_init (scripted [Partial ''buzon'', Final ''hola'']) ''call-1'' 8000)
              (concat (map tick_call (pre @ [t]))))
        \<and> final_result (run_calls (scripted [Partial ''buzon'', Final ''hola''])
              (AMDSession_init (scripted [Partial ''buzon'', Final ''hola'']) ''call-1'' 8000)
              (concat (map tick_call (pre @ [t])))) = Some r
        \<and> (forced r = Some True \<longleftrightarrow> AMD_DECISION_TIMEOUT_SECONDS < fst t)
        \<and> (\<exists>srv'. websocket_amd (scripted [Partial ''buzon'', Final ''hola'']) no_sessions ''call-1''
              [(0, Frame (frame 4)), (0.5, TimeoutError), (1, Frame (frame 4)), (3.6, WebSocketDisconnect)]
              = Some ([Json (Some r)], srv')
            \<and> active_sessions srv' ''call-1'' = None
            \<and> objects srv' (next_id (no_sessions :: (utterance list \<times> string) server))
                = Some (run_calls (scripted [Partial ''buzon'', Final ''hola''])
                     (AMDSession_init (scripted [Partial ''buzon'', Final ''hola'']) ''call-1'' 8000)
                     (concat (map tick_call (pre @ [t]))))))
   \<and> (\<exists>pre t post r.
          [(0, Frame (frame 4)), (0.5, TimeoutError), (1, Frame (frame 4)), (3.6, WebSocketDisconnect)]
            = pre @ t # post
        \<and> \<not> decision_made (run_calls (scripted [Partial ''buzon'', Final ''hola''])
              (AMDSession_init (scripted [Partial ''buzon'', Final ''hola'']) ''call-1'' 16000)
              (concat (map tick_call pre)))
        \<and> decision_made (run_calls (scripted [Partial ''buzon'', Final ''hola''])
              (AMDSession_init (scripted [Partial ''buzon'', Final ''hola'']) ''call-1'' 16000)
              (concat (map tick_call (pre @ [t]))))
        \<and> final_result (run_calls (scripted [Partial ''buzon'', Final ''hola''])
              (AMDSession_init (scripted [Partial ''buzon'', Final ''hola'']) ''call-1'' 16000)
              (concat (map tick_call (pre @ [t])))) = Some r
        \<and> (forced r = Some True \<longleftrightarrow> AMD_DECISION_TIMEOUT_SECONDS < fst t)
        \<and> decision_loop (scripted [Partial ''buzon'', Final ''hola''])
              (AMDSession_init (scripted [Partial ''buzon'', Final ''hola'']) ''call-1'' 16000)
              [(0, Frame (frame 4)), (0.5, TimeoutError), (1, Frame (frame 4)), (3.6, WebSocketDisconnect)]
            = Some (Break, [Json (Some r)],
                run_calls (scripted [Partial ''buzon'', Final ''hola''])
                  (AMDSession_init (scripted [Partial ''buzon'', Final ''hola'']) ''call-1'' 16000)
                  (concat (map tick_call (pre @ [t]))))
        \<and> map_option fst (websocket_stream (scripted [Partial ''buzon'', Final ''hola'']) no_sessions
              (Some ''call-1'') (Some 16000)
              [(0, Frame (frame 4)), (0.5, TimeoutError), (1, Frame (frame 4)), (3.6, WebSocketDisconnect)])
            = Some [ReadyJson ''call-1'', Json (Some r)])
   \<and> (\<exists>r. analyze_audio (scripted [Partial ''buzon'', Final ''hola'']) ''call-1'' (frame 4) 16000
              = Inr (Some r)
        \<and> final_result (run_calls (scripted [Partial ''buzon'', Final ''hola''])
              (AMDSession_init (scripted [Partial ''buzon'', Final ''hola'']) ''call-1'' 16000)
              [ProcessAudio (frame 4), ForceDecision]) = Some r)
   \<and> map_option fst (websocket_amd (scripted [Partial ''buzon'', Final ''hola'']) no_sessions ''call-1''
          [(0, Frame (frame 4)), (0.5, TimeoutError), (1, Frame (frame 4)), (3.6, WebSocketDisconnect)])
       = Some [Json (Some ((analysis HUMAN 0.85 (HumanGreeting ''hola'') ''hola'' None)
                             \<lparr>r_call_id := Some ''call-1''\<rparr>))]"
proof -
  let ?ticks = "[(0, Frame (frame 4)), (0.5, TimeoutError), (1, Frame (frame 4)), (3.6, WebSocketDisconnect)]"
  let ?v = "scripted [Partial ''buzon'', Final ''hola'']"
  have h1: "WebSocketDisconnect \<notin> snd ` set (takeWhile (\<lambda>t. fst t \<le> AMD_DECISION_TIMEOUT_SECONDS) ?ticks)"
    by code_simp
  have h2: "\<exists>t\<in>set ?ticks. AMD_DECISION_TIMEOUT_SECONDS < fst t"
    by code_simp
  have h3: "(16000::int) \<noteq> 0"
    by simp
  have ev: "map_option fst (websocket_amd ?v no_sessions ''call-1'' ?ticks)
       = Some [Json (Some ((analysis HUMAN 0.85 (HumanGreeting ''hola'') ''hola'' None)
                             \<lparr>r_call_id := Some ''call-1''\<rparr>))]"
    by code_simp
  note th = controller_one_result [where ticks = ?ticks and v = ?v and cid = "''call-1''"
      and srv = no_sessions and rate = 16000 and audio_data = "frame 4"]
  note a = th [THEN conjunct1, THEN mp, OF conjI [OF h1 h2]]
  note b = th [THEN conjunct2, THEN conjunct1, THEN mp, OF conjI [OF h1 conjI [OF h2 h3]]]
  note e = th [THEN conjunct2, THEN conjunct2, THEN conjunct2, THEN conjunct2, THEN mp, OF h3]
  show ?thesis
    by (intro conjI h1 h2 h3 a b e ev)
qed

text \<open>
  With sample rate 0 and a first frame that finalizes the utterance \<open>hola\<close>, \<open>process_audio\<close>
  raises \<open>ZeroDivisionError\<close>: the loop ends, \<open>websocket_stream\<close> has sent the ready
  notice and no decision although the clock passes the timeout and nobody disconnects,
  and \<open>analyze_audio\<close> answers with the error.
\<close>

theorem zero_sample_rate_counterexample:
  "WebSocketDisconnect \<notin> snd ` set (takeWhile (\<lambda>t. fst t \<le> AMD_DECISION_TIMEOUT_SECONDS)
       [(0, Frame (frame 4)), (0.5, TimeoutError), (3.6, TimeoutError)])
   \<and> (\<exists>t\<in>set [(0, Frame (frame 4)), (0.5, TimeoutError), (3.6, TimeoutError)].
         AMD_DECISION_TIMEOUT_SECONDS < fst t)
   \<and> map_option fst (websocket_stream (scripted [Final ''hola'']) no_sessions (Some ''call-1'') (Some 0)
          [(0, Frame (frame 4)), (0.5, TimeoutError), (3.6, TimeoutError)])
       = Some [ReadyJson ''call-1'']
   \<and> decision_loop (scripted [Final ''hola'']) (AMDSession_init (scripted [Final ''hola'']) ''call-1'' 0)
          [(0, Frame (frame 4)), (0.5, TimeoutError), (3.6, TimeoutError)]
       = Some (Failed ZeroDivisionError, [],
               (AMDSession_init (scripted [Final ''hola'']) ''call-1'' 0)
                 \<lparr>recognizer := ([], []), accumulated_text := '' hola''\<rparr>)
   \<and> analyze_audio (scripted [Final ''hola'']) ''call-1'' (frame 4) 0 = Inl ZeroDivisionError"
  by code_simp

section \<open>The session state machine\<close>

lemma run_calls_decided: "decision_made s \<Longrightarrow> run_calls v s cs = s"
proof (induction cs)
  case Nil
  then show ?case by simp
next
  case (Cons c cs)
  from Cons.prems have "run_call v s c = s"
    by (cases c) (simp_all add: process_audio_decided force_decision_decided)
  with Cons show ?case by simp
qed

text \<open>
  C2. For every text and speech duration the classifier's confidence lies between 0 and 1;
  a confidence below 0.70 comes with the outcome UNKNOWN, so a HUMAN or MACHINE answer of the
  classifier carries a confidence of at least 0.70. Every decision that \<open>process_audio\<close>
  takes on a session that had not decided yet (finalized or partial path) has confidence
  at least 0.70 and outcome HUMAN or MACHINE.
\<close>

theorem confidence_threshold:
  "0 \<le> confidence (analyze_transcription text d) \<and> confidence (analyze_transcription text d) \<le> 1
   \<and> (confidence (analyze_transcription text d) < 0.70 \<longrightarrow> result (analyze_transcription text d) = UNKNOWN)
   \<and> (result (analyze_transcription text d) \<in> {HUMAN, MACHINE}
        \<longrightarrow> 0.70 \<le> confidence (analyze_transcription text d))
   \<and> (\<not> decision_made s \<and> fst (process_audio v s a) = Return (Some r)
        \<longrightarrow> 0.70 \<le> confidence r \<and> result r \<in> {HUMAN, MACHINE})"
proof -
  have a: "0 \<le> confidence (analyze_transcription text d) \<and> confidence (analyze_transcription text d) \<le> 1"
    by (rule analyze_range)
  have b: "confidence (analyze_transcription text d) < 0.70 \<longrightarrow> result (analyze_transcription text d) = UNKNOWN"
    using analyze_outcomes [of "text" d] by auto
  have c: "result (analyze_transcription text d) \<in> {HUMAN, MACHINE}
        \<longrightarrow> 0.70 \<le> confidence (analyze_transcription text d)"
    using analyze_outcomes [of "text" d] by auto
  have e: "\<not> decision_made s \<and> fst (process_audio v s a) = Return (Some r)
        \<longrightarrow> 0.70 \<le> confidence r \<and> result r \<in> {HUMAN, MACHINE}"
  proof
    assume h: "\<not> decision_made s \<and> fst (process_audio v s a) = Return (Some r)"
    then have "0.70 \<le> confidence r \<and> result r \<noteq> UNKNOWN"
      using process_audio_undecided_some [of s v a r] by simp
    then show "0.70 \<le> confidence r \<and> result r \<in> {HUMAN, MACHINE}"
      by (cases "result r") simp_all
  qed
  from a b c e show ?thesis by blast
qed

theorem confidence_threshold_witness:
  "confidence (analyze_transcription '''' 0) < 0.70
   \<and> result (analyze_transcription '''' 0) = UNKNOWN
   \<and> result (analyze_transcription ''hola'' 0.5) \<in> {HUMAN, MACHINE}
   \<and> 0.70 \<le> confidence (analyze_transcription ''hola'' 0.5)
   \<and> confidence (analyze_transcription ''hola'' 0.5) \<le> 1
   \<and> \<not> decision_made (AMDSession_init (scripted [Final ''hola'']) ''call-1'' 8000)
   \<and> fst (process_audio (scripted [Final ''hola''])
             (AMDSession_init (scripted [Final ''hola'']) ''call-1'' 8000) (frame 4))
       = Return (Some ((analysis HUMAN 0.85 (HumanGreeting ''hola'') ''hola'' None)\<lparr>r_call_id := Some ''call-1''\<rparr>))
   \<and> 0.70 \<le> confidence ((analysis HUMAN 0.85 (HumanGreeting ''hola'') ''hola'' None)\<lparr>r_call_id := Some ''call-1''\<rparr>)"
proof -
  have h1: "confidence (analyze_transcription '''' 0) < 0.70"
    by code_simp
  have h2: "result (analyze_transcription ''hola'' 0.5) \<in> {HUMAN, MACHINE}"
    by code_simp
  have h3: "\<not> decision_made (AMDSession_init (scripted [Final ''hola'']) ''call-1'' 8000)"
    by code_simp
  have h4: "fst (process_audio (scripted [Final ''hola''])
             (AMDSession_init (scripted [Final ''hola'']) ''call-1'' 8000) (frame 4))
       = Return (Some ((analysis HUMAN 0.85 (HumanGreeting ''hola'') ''hola'' None)\<lparr>r_call_id := Some ''call-1''\<rparr>))"
    by code_simp
  from confidence_threshold [of "''''" 0] h1
  have c1: "result (analyze_transcription '''' 0) = UNKNOWN"
    by blast
  from confidence_threshold [of "''hola''" "0.5" "AMDSession_init (scripted [Final ''hola'']) ''call-1'' 8000"
      "scripted [Final ''hola'']" "frame 4"
      "(analysis HUMAN 0.85 (HumanGreeting ''hola'') ''hola'' None)\<lparr>r_call_id := Some ''call-1''\<rparr>"] h2 h3 h4
  have c2: "0.70 \<le> confidence (analyze_transcription ''hola'' 0.5)"
    "confidence (analyze_transcription ''hola'' 0.5) \<le> 1"
    "0.70 \<le> confidence ((analysis HUMAN 0.85 (HumanGreeting ''hola'') ''hola'' None)\<lparr>r_call_id := Some ''call-1''\<rparr>)"
    by blast+
  from h1 h2 h3 h4 c1 c2 show ?thesis by blast
qed

text \<open>
  C7. On a session that has not decided, a frame for which the recogniser reports an
  utterance in progress classifies the partial text alone, with duration 0. If that answer is
  MACHINE with confidence at least 0.85, the session becomes decided, and caches and returns
  that answer with the call id and \<open>partial = True\<close>; otherwise \<open>process_audio\<close> returns
  \<open>None\<close> and no field of the session changes except the recogniser object that has consumed
  the frame. The session decides on this path if and only if the condition holds.
\<close>

theorem partial_fast_exit:
  assumes "\<not> decision_made s"
    and "AcceptWaveform v (recognizer s) a = (False, rec1)"
    and "PartialResult v rec1 = (p, rec2)"
  shows "(result (analyze_transcription p 0) = MACHINE \<and> 0.85 \<le> confidence (analyze_transcription p 0)
          \<longrightarrow> process_audio v s a =
              (Return (Some ((analyze_transcription p 0)\<lparr>r_call_id := Some (call_id s), partial := Some True\<rparr>)),
               s\<lparr>recognizer := rec2, decision_made := True,
                 final_result := Some ((analyze_transcription p 0)
                                         \<lparr>r_call_id := Some (call_id s), partial := Some True\<rparr>)\<rparr>))
       \<and> (\<not> (result (analyze_transcription p 0) = MACHINE \<and> 0.85 \<le> confidence (analyze_transcription p 0))
          \<longrightarrow> process_audio v s a = (Return None, s\<lparr>recognizer := rec2\<rparr>))
       \<and> (decision_made (snd (process_audio v s a))
          \<longleftrightarrow> result (analyze_transcription p 0) = MACHINE \<and> 0.85 \<le> confidence (analyze_transcription p 0))"
  unfolding process_audio_partial [OF assms] using assms(1) by simp

theorem partial_fast_exit_witness:
  "\<not> decision_made (AMDSession_init (scripted [Partial ''deje su mensaje'']) ''call-1'' 8000)
   \<and> AcceptWaveform (scripted [Partial ''deje su mensaje''])
        (recognizer (AMDSession_init (scripted [Partial ''deje su mensaje'']) ''call-1'' 8000)) (frame 4)
      = (False, ([], ''deje su mensaje''))
   \<and> PartialResult (scripted [Partial ''deje su mensaje'']) ([], ''deje su mensaje'')
      = (''deje su mensaje'', ([], ''deje su mensaje''))
   \<and> result (analyze_transcription ''deje su mensaje'' 0) = MACHINE
   \<and> 0.85 \<le> confidence (analyze_transcription ''deje su mensaje'' 0)
   \<and> decision_made (snd (process_audio (scripted [Partial ''deje su mensaje''])
        (AMDSession_init (scripted [Partial ''deje su mensaje'']) ''call-1'' 8000) (frame 4)))"
proof -
  have h1: "\<not> decision_made (AMDSession_init (scripted [Partial ''deje su mensaje'']) ''call-1'' 8000)"
    by code_simp
  have h2: "AcceptWaveform (scripted [Partial ''deje su mensaje''])
        (recognizer (AMDSession_init (scripted [Partial ''deje su mensaje'']) ''call-1'' 8000)) (frame 4)
      = (False, ([], ''deje su mensaje''))"
    by code_simp
  have h3: "PartialResult (scripted [Partial ''deje su mensaje'']) ([], ''deje su mensaje'')
      = (''deje su mensaje'', ([], ''deje su mensaje''))"
    by code_simp
  have h4: "result (analyze_transcription ''deje su mensaje'' 0) = MACHINE"
    "0.85 \<le> confidence (analyze_transcription ''deje su mensaje'' 0)"
    by code_simp+
  from partial_fast_exit [OF h1 h2 h3] h4
  have "decision_made (snd (process_audio (scripted [Partial ''deje su mensaje''])
        (AMDSession_init (scripted [Partial ''deje su mensaje'']) ''call-1'' 8000) (frame 4)))"
    by blast
  with h1 h2 h3 h4 show ?thesis by blast
qed

text \<open>
  C8. On a session with \<open>decision_made\<close> set, \<open>process_audio\<close> with any frame and
  \<open>force_decision\<close> return the cached \<open>final_result\<close> and leave the whole session as it
  is, the recogniser included; so does any sequence of such calls.
\<close>

theorem decided_idempotent:
  assumes "decision_made s"
  shows "process_audio v s a = (Return (final_result s), s)
       \<and> force_decision v s = (final_result s, s)
       \<and> run_calls v s cs = s"
  using assms by (simp add: process_audio_decided force_decision_decided run_calls_decided)

theorem decided_idempotent_witness:
  "decision_made (snd (force_decision (scripted []) (AMDSession_init (scripted []) ''call-1'' 8000)))
   \<and> process_audio (scripted []) (snd (force_decision (scripted []) (AMDSession_init (scripted []) ''call-1'' 8000)))
        (frame 4)
      = (Return (final_result (snd (force_decision (scripted []) (AMDSession_init (scripted []) ''call-1'' 8000)))),
         snd (force_decision (scripted []) (AMDSession_init (scripted []) ''call-1'' 8000)))
   \<and> force_decision (scripted []) (snd (force_decision (scripted []) (AMDSession_init (scripted []) ''call-1'' 8000)))
      = (final_result (snd (force_decision (scripted []) (AMDSession_init (scripted []) ''call-1'' 8000))),
         snd (force_decision (scripted []) (AMDSession_init (scripted []) ''call-1'' 8000)))"
proof -
  have h: "decision_made (snd (force_decision (scripted []) (AMDSession_init (scripted []) ''call-1'' 8000)))"
    by code_simp
  from decided_idempotent [OF h, of "scripted []" "frame 4" "[]"] h show ?thesis
    by blast
qed

text \<open>
  C5. On a session that has not decided, \<open>force_decision\<close> asks the recogniser for its
  final text, appends it (after a space) to the accumulated text when it is not empty,
  classifies the whole accumulated text with the accumulated duration, and, whatever the
  confidence, sets \<open>decision_made\<close>, caches the answer with the call id and
  \<open>forced = True\<close>, and returns it. A decision that \<open>process_audio\<close> takes is never
  UNKNOWN and is not marked forced; hence after any sequence of calls on a new session, a
  cached result with outcome UNKNOWN is a forced one.
\<close>

theorem forced_decision:
  "(\<not> decision_made s \<and> FinalResult v (recognizer s) = (final_text, rec1) \<longrightarrow>
      (let acc = (if final_text \<noteq> [] then accumulated_text s @ '' '' @ final_text
                  else accumulated_text s);
           res = (analyze_transcription (py_strip acc) (total_speech_duration s))
                   \<lparr>r_call_id := Some (call_id s), forced := Some True\<rparr>
       in force_decision v s =
            (Some res, s\<lparr>recognizer := rec1, accumulated_text := acc, decision_made := True,
                          final_result := Some res\<rparr>)))
   \<and> (\<not> decision_made s \<and> fst (process_audio v s a) = Return (Some r) \<longrightarrow>
        result r \<noteq> UNKNOWN \<and> forced r = None)
   \<and> (final_result (run_calls v (AMDSession_init v cid rate) cs) = Some r \<and> result r = UNKNOWN \<longrightarrow>
        forced r = Some True)"
proof -
  have a: "\<not> decision_made s \<and> FinalResult v (recognizer s) = (final_text, rec1) \<longrightarrow>
      (let acc = (if final_text \<noteq> [] then accumulated_text s @ '' '' @ final_text
                  else accumulated_text s);
           res = (analyze_transcription (py_strip acc) (total_speech_duration s))
                   \<lparr>r_call_id := Some (call_id s), forced := Some True\<rparr>
       in force_decision v s =
            (Some res, s\<lparr>recognizer := rec1, accumulated_text := acc, decision_made := True,
                          final_result := Some res\<rparr>))"
    by (simp add: force_decision_undecided Let_def)
  have b: "\<not> decision_made s \<and> fst (process_audio v s a) = Return (Some r) \<longrightarrow>
        result r \<noteq> UNKNOWN \<and> forced r = None"
    using process_audio_undecided_some [of s v a r] by simp
  have "\<forall>r. final_result (AMDSession_init v cid rate) = Some r \<longrightarrow> result r = UNKNOWN
          \<longrightarrow> forced r = Some True"
    by (simp add: AMDSession_init_fields)
  then have "\<forall>r. final_result (run_calls v (AMDSession_init v cid rate) cs) = Some r
          \<longrightarrow> result r = UNKNOWN \<longrightarrow> forced r = Some True"
    by (rule run_calls_unknown_forced)
  then have c: "final_result (run_calls v (AMDSession_init v cid rate) cs) = Some r \<and> result r = UNKNOWN \<longrightarrow>
        forced r = Some True"
    by blast
  from a b c show ?thesis by blast
qed

theorem forced_decision_witness:
  "\<not> decision_made (AMDSession_init (scripted []) ''call-1'' 8000)
   \<and> FinalResult (scripted []) (recognizer (AMDSession_init (scripted []) ''call-1'' 8000)) = ([], ([], []))
   \<and> force_decision (scripted []) (AMDSession_init (scripted []) ''call-1'' 8000) =
       (Some ((analyze_transcription (py_strip []) 0)\<lparr>r_call_id := Some ''call-1'', forced := Some True\<rparr>),
        (AMDSession_init (scripted []) ''call-1'' 8000)
          \<lparr>recognizer := ([], []), accumulated_text := [], decision_made := True,
            final_result := Some ((analyze_transcription (py_strip []) 0)
                                    \<lparr>r_call_id := Some ''call-1'', forced := Some True\<rparr>)\<rparr>)
   \<and> result (analyze_transcription (py_strip []) 0) = UNKNOWN
   \<and> final_result (run_calls (scripted []) (AMDSession_init (scripted []) ''call-1'' 8000)
         [ProcessAudio (frame 4), ForceDecision])
       = Some ((analysis UNKNOWN 0 NoSpeech [] None)\<lparr>r_call_id := Some ''call-1'', forced := Some True\<rparr>)
   \<and> forced ((analysis UNKNOWN 0 NoSpeech [] None)\<lparr>r_call_id := Some ''call-1'', forced := Some True\<rparr>)
       = Some True"
proof -
  have h1: "\<not> decision_made (AMDSession_init (scripted []) ''call-1'' 8000)"
    by code_simp
  have h2: "FinalResult (scripted []) (recognizer (AMDSession_init (scripted []) ''call-1'' 8000)) = ([], ([], []))"
    by code_simp
  have h3: "accumulated_text (AMDSession_init (scripted []) ''call-1'' 8000) = []"
    "total_speech_duration (AMDSession_init (scripted []) ''call-1'' 8000) = 0"
    "call_id (AMDSession_init (scripted []) ''call-1'' 8000) = ''call-1''"
    by (simp_all add: AMDSession_init_def)
  have h4: "result (analyze_transcription (py_strip []) 0) = UNKNOWN"
    by code_simp
  have h5: "final_result (run_calls (scripted []) (AMDSession_init (scripted []) ''call-1'' 8000)
         [ProcessAudio (frame 4), ForceDecision])
       = Some ((analysis UNKNOWN 0 NoSpeech [] None)\<lparr>r_call_id := Some ''call-1'', forced := Some True\<rparr>)"
    by code_simp
  have h6: "result ((analysis UNKNOWN 0 NoSpeech [] None)\<lparr>r_call_id := Some ''call-1'', forced := Some True\<rparr>) = UNKNOWN"
    by (simp add: analysis_def)
  note th = forced_decision [of "AMDSession_init (scripted []) ''call-1'' 8000" "scripted []" "[]" "([], [])"
      "frame 4" "(analysis UNKNOWN 0 NoSpeech [] None)\<lparr>r_call_id := Some ''call-1'', forced := Some True\<rparr>"
      "''call-1''" 8000 "[ProcessAudio (frame 4), ForceDecision]"]
  from th h1 h2 have c1: "force_decision (scripted []) (AMDSession_init (scripted []) ''call-1'' 8000) =
       (Some ((analyze_transcription (py_strip []) 0)\<lparr>r_call_id := Some ''call-1'', forced := Some True\<rparr>),
        (AMDSession_init (scripted []) ''call-1'' 8000)
          \<lparr>recognizer := ([], []), accumulated_text := [], decision_made := True,
            final_result := Some ((analyze_transcription (py_strip []) 0)
                                    \<lparr>r_call_id := Some ''call-1'', forced := Some True\<rparr>)\<rparr>)"
    by (simp add: h3 Let_def)
  from th h5 h6 have c2: "forced ((analysis UNKNOWN 0 NoSpeech [] None)\<lparr>r_call_id := Some ''call-1'', forced := Some True\<rparr>)
       = Some True"
    by blast
  from h1 h2 h4 h5 c1 c2 show ?thesis by blast
qed

text \<open>
  C9 (as the code has it). On a session whose sample rate is not negative,
  \<open>total_speech_duration\<close> never decreases over any sequence of \<open>process_audio\<close> and
  \<open>force_decision\<close> calls, nor over any continuation of that sequence. On every session,
  \<open>decision_made\<close>, once set, stays set over any sequence of calls.
\<close>

theorem session_monotone:
  "(0 \<le> sample_rate s \<longrightarrow>
      total_speech_duration s \<le> total_speech_duration (run_calls v s cs)
      \<and> total_speech_duration (run_calls v s cs)
          \<le> total_speech_duration (run_calls v s (cs @ cs')))
   \<and> (decision_made s \<longrightarrow> decision_made (run_calls v s cs))
   \<and> (decision_made (run_calls v s cs) \<longrightarrow> decision_made (run_calls v s (cs @ cs')))"
proof -
  have app: "run_calls v s (cs @ cs') = run_calls v (run_calls v s cs) cs'"
    by (induction cs arbitrary: s) simp_all
  have rate: "sample_rate (run_calls v s cs) = sample_rate s"
    by (induction cs arbitrary: s) (simp_all add: run_call_keeps)
  have a: "0 \<le> sample_rate s \<longrightarrow>
      total_speech_duration s \<le> total_speech_duration (run_calls v s cs)
      \<and> total_speech_duration (run_calls v s cs)
          \<le> total_speech_duration (run_calls v s (cs @ cs'))"
  proof
    assume nn: "0 \<le> sample_rate s"
    then have "0 \<le> sample_rate (run_calls v s cs)"
      by (simp add: rate)
    then have "total_speech_duration (run_calls v s cs)
          \<le> total_speech_duration (run_calls v (run_calls v s cs) cs')"
      by (rule run_calls_duration)
    with run_calls_duration [OF nn, of v cs]
    show "total_speech_duration s \<le> total_speech_duration (run_calls v s cs)
      \<and> total_speech_duration (run_calls v s cs)
          \<le> total_speech_duration (run_calls v s (cs @ cs'))"
      by (simp add: app)
  qed
  have b: "decision_made s \<longrightarrow> decision_made (run_calls v s cs)"
    by (simp add: run_calls_stays_decided)
  have c: "decision_made (run_calls v s cs) \<longrightarrow> decision_made (run_calls v s (cs @ cs'))"
    by (simp add: app run_calls_stays_decided)
  from a b c show ?thesis by blast
qed

theorem session_monotone_witness:
  "0 \<le> sample_rate (AMDSession_init (scripted [Final ''uno dos tres cuatro cinco'', Partial ''deje su mensaje'']) ''call-1'' 8)
   \<and> total_speech_duration (run_calls (scripted [Final ''uno dos tres cuatro cinco'', Partial ''deje su mensaje''])
        (AMDSession_init (scripted [Final ''uno dos tres cuatro cinco'', Partial ''deje su mensaje'']) ''call-1'' 8)
        [ProcessAudio (frame 4)]) = 1 / 4
   \<and> total_speech_duration (AMDSession_init (scripted [Final ''uno dos tres cuatro cinco'', Partial ''deje su mensaje'']) ''call-1'' 8)
       \<le> 1 / 4
   \<and> decision_made (run_calls (scripted [Final ''uno dos tres cuatro cinco'', Partial ''deje su mensaje''])
        (AMDSession_init (scripted [Final ''uno dos tres cuatro cinco'', Partial ''deje su mensaje'']) ''call-1'' 8)
        [ProcessAudio (frame 4), ProcessAudio (frame 4)])
   \<and> decision_made (run_calls (scripted [Final ''uno dos tres cuatro cinco'', Partial ''deje su mensaje''])
        (AMDSession_init (scripted [Final ''uno dos tres cuatro cinco'', Partial ''deje su mensaje'']) ''call-1'' 8)
        ([ProcessAudio (frame 4), ProcessAudio (frame 4)] @ [ProcessAudio (frame 4), ForceDecision]))"
proof -
  have h1: "0 \<le> sample_rate (AMDSession_init (scripted [Final ''uno dos tres cuatro cinco'', Partial ''deje su mensaje'']) ''call-1'' 8)"
    by code_simp
  have h2: "total_speech_duration (run_calls (scripted [Final ''uno dos tres cuatro cinco'', Partial ''deje su mensaje''])
        (AMDSession_init (scripted [Final ''uno dos tres cuatro cinco'', Partial ''deje su mensaje'']) ''call-1'' 8)
        [ProcessAudio (frame 4)]) = 1 / 4"
    by code_simp
  have h3: "decision_made (run_calls (scripted [Final ''uno dos tres cuatro cinco'', Partial ''deje su mensaje''])
        (AMDSession_init (scripted [Final ''uno dos tres cuatro cinco'', Partial ''deje su mensaje'']) ''call-1'' 8)
        [ProcessAudio (frame 4), ProcessAudio (frame 4)])"
    by code_simp
  from session_monotone [of "AMDSession_init (scripted [Final ''uno dos tres cuatro cinco'', Partial ''deje su mensaje'']) ''call-1'' 8"
      "scripted [Final ''uno dos tres cuatro cinco'', Partial ''deje su mensaje'']" "[ProcessAudio (frame 4)]" "[]"] h1 h2
  have c1: "total_speech_duration (AMDSession_init (scripted [Final ''uno dos tres cuatro cinco'', Partial ''deje su mensaje'']) ''call-1'' 8)
       \<le> 1 / 4"
    by simp
  from session_monotone [of "AMDSession_init (scripted [Final ''uno dos tres cuatro cinco'', Partial ''deje su mensaje'']) ''call-1'' 8"
      "scripted [Final ''uno dos tres cuatro cinco'', Partial ''deje su mensaje'']"
      "[ProcessAudio (frame 4), ProcessAudio (frame 4)]" "[ProcessAudio (frame 4), ForceDecision]"] h3
  have c2: "decision_made (run_calls (scripted [Final ''uno dos tres cuatro cinco'', Partial ''deje su mensaje''])
        (AMDSession_init (scripted [Final ''uno dos tres cuatro cinco'', Partial ''deje su mensaje'']) ''call-1'' 8)
        ([ProcessAudio (frame 4), ProcessAudio (frame 4)] @ [ProcessAudio (frame 4), ForceDecision]))"
    by blast
  from h1 h2 h3 c1 c2 show ?thesis by blast
qed

text \<open>
  A session created with sample rate -8000 whose first 160-byte frame finalizes an
  utterance: the duration goes from 0 to 160 / (-8000 * 2) = -1/100, and the session goes on
  without a decision.
\<close>

theorem negative_sample_rate_counterexample:
  "total_speech_duration (AMDSession_init (scripted [Final ''uno dos tres cuatro cinco'']) ''call-1'' (- 8000)) = 0
   \<and> total_speech_duration (snd (process_audio (scripted [Final ''uno dos tres cuatro cinco''])
        (AMDSession_init (scripted [Final ''uno dos tres cuatro cinco'']) ''call-1'' (- 8000)) (frame 160)))
       = - (1 / 100)
   \<and> fst (process_audio (scripted [Final ''uno dos tres cuatro cinco''])
        (AMDSession_init (scripted [Final ''uno dos tres cuatro cinco'']) ''call-1'' (- 8000)) (frame 160))
       = Return None"
  by code_simp

lemma one_keyword_confidence:
  assumes "length (keywords_found (py_strip (py_lower p))) = 1"
  shows "result (analyze_transcription p d) = MACHINE \<and> confidence (analyze_transcription p d) = 0.80"
proof -
  from assms have ne: "keywords_found (py_strip (py_lower p)) \<noteq> []"
    by auto
  show ?thesis
    unfolding analyze_keyword_branch [OF ne] by (simp add: analysis_def assms)
qed

lemma machine_at_zero_needs_two:
  assumes "result (analyze_transcription p 0) = MACHINE"
    and "0.85 \<le> confidence (analyze_transcription p 0)"
  shows "2 \<le> length (keywords_found (py_strip (py_lower p)))"
proof (cases "keywords_found (py_strip (py_lower p)) = []")
  case True
  with assms analyze_outcomes [of p 0] show ?thesis
    by (auto simp: AMD_MIN_SPEECH_FOR_MACHINE_def)
next
  case False
  show ?thesis
  proof (rule ccontr)
    assume "\<not> 2 \<le> length (keywords_found (py_strip (py_lower p)))"
    with False have "length (keywords_found (py_strip (py_lower p))) = 1"
      by (cases "keywords_found (py_strip (py_lower p))") (auto simp: not_le less_Suc_eq_le)
    then have "confidence (analyze_transcription p 0) = 0.80"
      by (simp add: one_keyword_confidence)
    with assms(2) show False by simp
  qed
qed

lemma partial_only_undecided:
  assumes "\<not> decision_made s"
    and "\<not> (result (analyze_transcription p 0) = MACHINE \<and> 0.85 \<le> confidence (analyze_transcription p 0))"
  shows "\<not> decision_made (run_calls (partial_only p) s (map ProcessAudio frames))"
  using assms(1)
proof (induction frames arbitrary: s)
  case Nil
  then show ?case by simp
next
  case (Cons a frames)
  have acc: "AcceptWaveform (partial_only p) (recognizer s) a = (False, recognizer s)"
    and par: "PartialResult (partial_only p) (recognizer s) = (p, recognizer s)"
    by (simp_all add: partial_only_def)
  from assms(2) have "process_audio (partial_only p) s a = (Return None, s\<lparr>recognizer := recognizer s\<rparr>)"
    unfolding process_audio_partial [OF Cons.prems acc par] by simp
  with Cons.prems have "\<not> decision_made (run_call (partial_only p) s (ProcessAudio a))"
    by simp
  then show ?case
    using Cons.IH by simp
qed

text \<open>
  C10. On the partial path of a session that has not decided: a partial text in which
  exactly one voicemail keyword occurs has confidence 0.80, below the 0.85 of the fast
  exit, so \<open>process_audio\<close> returns \<open>None\<close> and the session stays undecided; whenever the
  partial path does decide, at least two distinct keywords occur in the partial text.
  The text \<open>buzon\<close> matches the one keyword \<open>buzon\<close>, and a session whose recogniser only
  ever reports the partial text \<open>buzon\<close> is undecided after any number of frames.
\<close>

theorem single_keyword_partial:
  "(\<not> decision_made s \<and> AcceptWaveform v (recognizer s) a = (False, rec1)
      \<and> PartialResult v rec1 = (p, rec2)
      \<longrightarrow> (length (keywords_found (py_strip (py_lower p))) = 1
            \<longrightarrow> confidence (analyze_transcription p 0) = 0.80
                \<and> process_audio v s a = (Return None, s\<lparr>recognizer := rec2\<rparr>))
         \<and> (decision_made (snd (process_audio v s a))
            \<longrightarrow> 2 \<le> length (keywords_found (py_strip (py_lower p)))))
   \<and> keywords_found (py_strip (py_lower ''buzon'')) = [''buzon'']
   \<and> \<not> decision_made (run_calls (partial_only ''buzon'') (AMDSession_init (partial_only ''buzon'') cid rate)
            (map ProcessAudio frames))"
proof -
  have a: "\<not> decision_made s \<and> AcceptWaveform v (recognizer s) a = (False, rec1)
      \<and> PartialResult v rec1 = (p, rec2)
      \<longrightarrow> (length (keywords_found (py_strip (py_lower p))) = 1
            \<longrightarrow> confidence (analyze_transcription p 0) = 0.80
                \<and> process_audio v s a = (Return None, s\<lparr>recognizer := rec2\<rparr>))
         \<and> (decision_made (snd (process_audio v s a))
            \<longrightarrow> 2 \<le> length (keywords_found (py_strip (py_lower p))))"
  proof
    assume h: "\<not> decision_made s \<and> AcceptWaveform v (recognizer s) a = (False, rec1)
      \<and> PartialResult v rec1 = (p, rec2)"
    then have pa: "process_audio v s a =
      (if result (analyze_transcription p 0) = MACHINE \<and> 0.85 \<le> confidence (analyze_transcription p 0)
       then (Return (Some ((analyze_transcription p 0)\<lparr>r_call_id := Some (call_id s), partial := Some True\<rparr>)),
             s\<lparr>recognizer := rec2, decision_made := True,
               final_result := Some ((analyze_transcription p 0)\<lparr>r_call_id := Some (call_id s), partial := Some True\<rparr>)\<rparr>)
       else (Return None, s\<lparr>recognizer := rec2\<rparr>))"
      using process_audio_partial [of s v a rec1 p rec2] by blast
    have one: "length (keywords_found (py_strip (py_lower p))) = 1
            \<longrightarrow> confidence (analyze_transcription p 0) = 0.80
                \<and> process_audio v s a = (Return None, s\<lparr>recognizer := rec2\<rparr>)"
    proof
      assume l: "length (keywords_found (py_strip (py_lower p))) = 1"
      then have c: "confidence (analyze_transcription p 0) = 0.80"
        by (simp add: one_keyword_confidence)
      then have "\<not> 0.85 \<le> confidence (analyze_transcription p 0)"
        by simp
      with pa c show "confidence (analyze_transcription p 0) = 0.80
                \<and> process_audio v s a = (Return None, s\<lparr>recognizer := rec2\<rparr>)"
        by simp
    qed
    have two: "decision_made (snd (process_audio v s a))
            \<longrightarrow> 2 \<le> length (keywords_found (py_strip (py_lower p)))"
    proof
      assume d: "decision_made (snd (process_audio v s a))"
      with h pa have "result (analyze_transcription p 0) = MACHINE \<and> 0.85 \<le> confidence (analyze_transcription p 0)"
        by (auto split: if_splits)
      then show "2 \<le> length (keywords_found (py_strip (py_lower p)))"
        by (simp add: machine_at_zero_needs_two)
    qed
    from one two show "(length (keywords_found (py_strip (py_lower p))) = 1
            \<longrightarrow> confidence (analyze_transcription p 0) = 0.80
                \<and> process_audio v s a = (Return None, s\<lparr>recognizer := rec2\<rparr>))
         \<and> (decision_made (snd (process_audio v s a))
            \<longrightarrow> 2 \<le> length (keywords_found (py_strip (py_lower p))))"
      by blast
  qed
  have b: "keywords_found (py_strip (py_lower ''buzon'')) = [''buzon'']"
    by code_simp
  then have "confidence (analyze_transcription ''buzon'' 0) = 0.80"
    by (simp add: one_keyword_confidence)
  then have "\<not> (result (analyze_transcription ''buzon'' 0) = MACHINE
               \<and> 0.85 \<le> confidence (analyze_transcription ''buzon'' 0))"
    by simp
  moreover have "\<not> decision_made (AMDSession_init (partial_only ''buzon'') cid rate)"
    by (simp add: AMDSession_init_fields)
  ultimately have c: "\<not> decision_made (run_calls (partial_only ''buzon'')
      (AMDSession_init (partial_only ''buzon'') cid rate) (map ProcessAudio frames))"
    by (intro partial_only_undecided)
  from a b c show ?thesis by blast
qed

theorem single_keyword_partial_witness:
  "\<not> decision_made (AMDSession_init (scripted [Partial ''buzon'']) ''call-1'' 8000)
   \<and> AcceptWaveform (scripted [Partial ''buzon''])
        (recognizer (AMDSession_init (scripted [Partial ''buzon'']) ''call-1'' 8000)) (frame 4)
      = (False, ([], ''buzon''))
   \<and> PartialResult (scripted [Partial ''buzon'']) ([], ''buzon'') = (''buzon'', ([], ''buzon''))
   \<and> length (keywords_found (py_strip (py_lower ''buzon''))) = 1
   \<and> confidence (analyze_transcription ''buzon'' 0) = 0.80
   \<and> process_audio (scripted [Partial ''buzon'']) (AMDSession_init (scripted [Partial ''buzon'']) ''call-1'' 8000)
        (frame 4)
      = (Return None, (AMDSession_init (scripted [Partial ''buzon'']) ''call-1'' 8000)\<lparr>recognizer := ([], ''buzon'')\<rparr>)
   \<and> \<not> decision_made (run_calls (partial_only ''buzon'') (AMDSession_init (partial_only ''buzon'') ''call-1'' 8000)
            (map ProcessAudio [frame 4, frame 4, frame 4]))"
proof -
  have h1: "\<not> decision_made (AMDSession_init (scripted [Partial ''buzon'']) ''call-1'' 8000)"
    by code_simp
  have h2: "AcceptWaveform (scripted [Partial ''buzon''])
        (recognizer (AMDSession_init (scripted [Partial ''buzon'']) ''call-1'' 8000)) (frame 4)
      = (False, ([], ''buzon''))"
    by code_simp
  have h3: "PartialResult (scripted [Partial ''buzon'']) ([], ''buzon'') = (''buzon'', ([], ''buzon''))"
    by code_simp
  have h4: "length (keywords_found (py_strip (py_lower ''buzon''))) = 1"
    by code_simp
  note th = single_keyword_partial [of "AMDSession_init (scripted [Partial ''buzon'']) ''call-1'' 8000"
      "scripted [Partial ''buzon'']" "frame 4" "([], ''buzon'')" "''buzon''" "([], ''buzon'')"
      "''call-1''" 8000 "[frame 4, frame 4, frame 4]"]
  from th h1 h2 h3 h4 show ?thesis by blast
qed

section \<open>The registry\<close>

text \<open>
  C1 (as the code has it). Creating a session is never rejected. It makes a new session
  object, and \<open>active_sessions[call_id]\<close> is set to it, whether or not the call id was
  already there: the entry of a call id that is active is overwritten. The entries of the
  other call ids and all the session objects that existed, the one previously registered
  under this call id among them, are as they were.
\<close>

theorem create_session_overwrites:
  "fst (create_session v srv cid rate) = next_id srv
   \<and> fst (snd (create_session v srv cid rate)) = AMDSession_init v cid rate
   \<and> active_sessions (snd (snd (create_session v srv cid rate))) cid = Some (next_id srv)
   \<and> objects (snd (snd (create_session v srv cid rate))) (next_id srv) = Some (AMDSession_init v cid rate)
   \<and> (\<forall>c. c \<noteq> cid \<longrightarrow>
         active_sessions (snd (snd (create_session v srv cid rate))) c = active_sessions srv c)
   \<and> (\<forall>ref. ref \<noteq> next_id srv \<longrightarrow>
         objects (snd (snd (create_session v srv cid rate))) ref = objects srv ref)
   \<and> (\<forall>old. active_sessions srv cid = Some old \<and> old < next_id srv \<longrightarrow>
         objects (snd (snd (create_session v srv cid rate))) old = objects srv old
         \<and> active_sessions (snd (snd (create_session v srv cid rate))) cid \<noteq> Some old)"
  by (simp add: create_session_def Let_def)

theorem create_session_overwrites_witness:
  "active_sessions (snd (snd (create_session (scripted []) no_sessions ''call-1'' 8000))) ''call-1'' = Some 0
   \<and> (0::nat) < next_id (snd (snd (create_session (scripted []) no_sessions ''call-1'' 8000)))
   \<and> ''call-2'' \<noteq> ''call-1''
   \<and> active_sessions (snd (snd (create_session (scripted [])
          (snd (snd (create_session (scripted []) no_sessions ''call-1'' 8000))) ''call-1'' 8000))) ''call-1''
       = Some 1
   \<and> active_sessions (snd (snd (create_session (scripted [])
          (snd (snd (create_session (scripted []) no_sessions ''call-1'' 8000))) ''call-1'' 8000))) ''call-2''
       = active_sessions (snd (snd (create_session (scripted []) no_sessions ''call-1'' 8000))) ''call-2''
   \<and> objects (snd (snd (create_session (scripted [])
          (snd (snd (create_session (scripted []) no_sessions ''call-1'' 8000))) ''call-1'' 8000))) 0
       = objects (snd (snd (create_session (scripted []) no_sessions ''call-1'' 8000))) 0"
proof -
  let ?s1 = "snd (snd (create_session (scripted []) no_sessions ''call-1'' 8000))"
  let ?s2 = "snd (snd (create_session (scripted []) ?s1 ''call-1'' 8000))"
  have h1: "active_sessions ?s1 ''call-1'' = Some 0"
    by (simp add: create_session_def no_sessions_def Let_def)
  have h2: "next_id ?s1 = 1"
    by (simp add: create_session_def no_sessions_def Let_def)
  have h3: "''call-2'' \<noteq> ''call-1''"
    by simp
  note th = create_session_overwrites [of "scripted []" ?s1 "''call-1''" 8000]
  note t3 = th [THEN conjunct2, THEN conjunct2, THEN conjunct1]
  note t5 = th [THEN conjunct2, THEN conjunct2, THEN conjunct2, THEN conjunct2, THEN conjunct1]
  note t7 = th [THEN conjunct2, THEN conjunct2, THEN conjunct2, THEN conjunct2, THEN conjunct2,
      THEN conjunct2]
  from t3 have c1: "active_sessions ?s2 ''call-1'' = Some 1"
    by (simp only: h2)
  from t5 [rule_format, OF h3] have c2: "active_sessions ?s2 ''call-2'' = active_sessions ?s1 ''call-2''"
    .
  have "active_sessions ?s1 ''call-1'' = Some 0 \<and> (0::nat) < next_id ?s1"
    by (simp add: h1 h2)
  from t7 [rule_format, OF this] have c3: "objects ?s2 0 = objects ?s1 0"
    by (rule conjunct1)
  have h4: "(0::nat) < next_id ?s1"
    by (simp add: h2)
  show ?thesis
    by (intro conjI h1 h4 h3 c1 c2 c3)
qed

text \<open>
  After one call with id \<open>call-1\<close> is registered (object 0), a second creation for
  \<open>call-1\<close> goes through: it returns the new object 1 and the registry entry of \<open>call-1\<close>
  has changed from object 0 to object 1.
\<close>

theorem duplicate_call_id_counterexample:
  "active_sessions (snd (snd (create_session (scripted []) no_sessions ''call-1'' 8000))) ''call-1'' = Some 0
   \<and> fst (create_session (scripted [])
          (snd (snd (create_session (scripted []) no_sessions ''call-1'' 8000))) ''call-1'' 8000) = 1
   \<and> active_sessions (snd (snd (create_session (scripted [])
          (snd (snd (create_session (scripted []) no_sessions ''call-1'' 8000))) ''call-1'' 8000))) ''call-1''
       = Some 1
   \<and> active_sessions (snd (snd (create_session (scripted [])
          (snd (snd (create_session (scripted []) no_sessions ''call-1'' 8000))) ''call-1'' 8000))) ''call-1''
       \<noteq> active_sessions (snd (snd (create_session (scripted []) no_sessions ''call-1'' 8000))) ''call-1''"
  by (simp add: create_session_def no_sessions_def Let_def)

end
